theory Spec2Isabelle
  imports Main "HOL-Library.Sublist"
begin

section \<open>dgGit: clipboard-to-file utility (main.go)\<close>

text \<open>
  The program is one Go file. Its pure parts (string handling, the configuration parser
  and writer, the filename derivation) are embedded as HOL functions. Its interaction
  with the outside world (dialogs, clipboard, file system, registry, git) is embedded by
  explicit environment passing: a record \<open>Env\<close> holds what the world answers during one
  run, and every function that acts on the world returns the list of actions it
  performed, in program order.

  Go strings are byte sequences, so a Go string is a \<^typ>\<open>string\<close> (a list of 8-bit
  \<^typ>\<open>char\<close>).
\<close>

subsection \<open>Package strings\<close>

definition HasPrefix :: "string \<Rightarrow> string \<Rightarrow> bool" where
  "HasPrefix s p = prefix p s"

definition TrimPrefix :: "string \<Rightarrow> string \<Rightarrow> string" where
  "TrimPrefix s p = (if HasPrefix s p then drop (length p) s else s)"

text \<open>\<open>strings.Split(s, sep)\<close> for a one-byte separator: all the pieces between
  separators, empty ones included; never the empty list.\<close>

fun Split :: "string \<Rightarrow> char \<Rightarrow> string list" where
  "Split [] sep = [[]]"
| "Split (c # cs) sep =
     (if c = sep then [] # Split cs sep
      else (case Split cs sep of [] \<Rightarrow> [[c]] | p # ps \<Rightarrow> (c # p) # ps))"

text \<open>\<open>strings.SplitN(s, sep, 2)\<close> for a one-byte separator: the text before the first
  separator and the text after it, or the string alone when it has no separator.\<close>

definition SplitN2 :: "string \<Rightarrow> char \<Rightarrow> string list" where
  "SplitN2 s sep =
     (case dropWhile (\<lambda>c. c \<noteq> sep) s of
        [] \<Rightarrow> [s]
      | _ # rest \<Rightarrow> [takeWhile (\<lambda>c. c \<noteq> sep) s, rest])"

text \<open>\<open>strings.ReplaceAll(s, old, new)\<close> for a one-byte \<open>old\<close>.\<close>

definition ReplaceAll :: "string \<Rightarrow> char \<Rightarrow> string \<Rightarrow> string" where
  "ReplaceAll s old new = concat (map (\<lambda>c. if c = old then new else [c]) s)"

text \<open>
  \<open>strings.TrimSpace\<close> removes leading and trailing white space as Unicode defines it
  (\<open>unicode.IsSpace\<close>), reading the bytes as UTF-8. \<open>whiteSpace\<close> lists the UTF-8
  encodings of the white space code points: the six ASCII ones, U+0085, U+00A0, U+1680,
  U+2000 to U+200A, U+2028, U+2029, U+202F, U+205F and U+3000. A byte sequence that is
  not valid UTF-8 decodes to U+FFFD, which is not white space, so trimming removes
  exactly the leading and the trailing occurrences of these encodings.
\<close>

definition whiteSpace :: "string list" where
  "whiteSpace =
    [[CHR 0x09], [CHR 0x0A], [CHR 0x0B], [CHR 0x0C], [CHR 0x0D], [CHR 0x20],
     [CHR 0xC2, CHR 0x85], [CHR 0xC2, CHR 0xA0],
     [CHR 0xE1, CHR 0x9A, CHR 0x80],
     [CHR 0xE2, CHR 0x80, CHR 0x80], [CHR 0xE2, CHR 0x80, CHR 0x81],
     [CHR 0xE2, CHR 0x80, CHR 0x82], [CHR 0xE2, CHR 0x80, CHR 0x83],
     [CHR 0xE2, CHR 0x80, CHR 0x84], [CHR 0xE2, CHR 0x80, CHR 0x85],
     [CHR 0xE2, CHR 0x80, CHR 0x86], [CHR 0xE2, CHR 0x80, CHR 0x87],
     [CHR 0xE2, CHR 0x80, CHR 0x88], [CHR 0xE2, CHR 0x80, CHR 0x89],
     [CHR 0xE2, CHR 0x80, CHR 0x8A],
     [CHR 0xE2, CHR 0x80, CHR 0xA8], [CHR 0xE2, CHR 0x80, CHR 0xA9],
     [CHR 0xE2, CHR 0x80, CHR 0xAF], [CHR 0xE2, CHR 0x81, CHR 0x9F],
     [CHR 0xE3, CHR 0x80, CHR 0x80]]"

function trimLeftSeqs :: "string list \<Rightarrow> string \<Rightarrow> string" where
  "trimLeftSeqs ws s =
     (case find (\<lambda>w. w \<noteq> [] \<and> prefix w s) ws of
        None \<Rightarrow> s
      | Some w \<Rightarrow> trimLeftSeqs ws (drop (length w) s))"
  by pat_completeness auto
termination
proof (relation "measure (\<lambda>(ws, s). length s)")
  show "wf (measure (\<lambda>(ws, s). length s))" by simp
next
  fix ws :: "string list" and s w :: string
  assume "find (\<lambda>w. w \<noteq> [] \<and> prefix w s) ws = Some w"
  then have "w \<noteq> []" and "prefix w s"
    by (auto simp: find_Some_iff)
  then have "s \<noteq> []" by auto
  with \<open>w \<noteq> []\<close> show "((ws, drop (length w) s), (ws, s)) \<in> measure (\<lambda>(ws, s). length s)"
    by simp
qed

declare trimLeftSeqs.simps [simp del]

definition TrimLeftSpace :: "string \<Rightarrow> string" where
  "TrimLeftSpace s = trimLeftSeqs whiteSpace s"

definition TrimRightSpace :: "string \<Rightarrow> string" where
  "TrimRightSpace s = rev (trimLeftSeqs (map rev whiteSpace) (rev s))"

definition TrimSpace :: "string \<Rightarrow> string" where
  "TrimSpace s = TrimRightSpace (TrimLeftSpace s)"

text \<open>\<open>strings.Trim(s, cutset)\<close> for a cutset of one ASCII byte.\<close>

definition Trim :: "string \<Rightarrow> char \<Rightarrow> string" where
  "Trim s c = dropWhile (\<lambda>x. x = c) (rev (dropWhile (\<lambda>x. x = c) (rev s)))"

text \<open>
  \<open>strings.ToLower\<close>. A string of ASCII bytes only has its letters A to Z moved to a to
  z. A string with a byte from 0x80 on is decoded as UTF-8 and \<open>unicode.ToLower\<close> is
  applied to every code point. The only code points outside ASCII whose lower case is an
  ASCII character are U+0130 (lower case \<open>i\<close>) and U+212A (lower case \<open>k\<close>);
  \<open>lowerRunes\<close> maps these two and the ASCII letters, and leaves every other byte as it
  is. The program only compares the result with ASCII literals, and for that comparison
  \<open>lowerRunes\<close> is exact: any other byte from 0x80 on leaves a byte from 0x80 on in
  Go's result as well.
\<close>

definition lowerByte :: "char \<Rightarrow> char" where
  "lowerByte c =
     (let n = (of_char c :: nat) in if 65 \<le> n \<and> n \<le> 90 then char_of (n + 32) else c)"

definition isASCII :: "string \<Rightarrow> bool" where
  "isASCII s = list_all (\<lambda>c. (of_char c :: nat) < 128) s"

fun lowerRunes :: "string \<Rightarrow> string" where
  "lowerRunes [] = []"
| "lowerRunes (c # cs) =
     (if prefix [CHR 0xC4, CHR 0xB0] (c # cs) then CHR ''i'' # lowerRunes (drop 1 cs)
      else if prefix [CHR 0xE2, CHR 0x84, CHR 0xAA] (c # cs) then CHR ''k'' # lowerRunes (drop 2 cs)
      else lowerByte c # lowerRunes cs)"

definition ToLower :: "string \<Rightarrow> string" where
  "ToLower s = (if isASCII s then map lowerByte s else lowerRunes s)"

subsection \<open>Package bufio: a Scanner splitting into lines\<close>

text \<open>
  \<open>scanLines data\<close> is the list of tokens that the loop \<open>for scanner.Scan()\<close> sees on a
  file holding \<open>data\<close>: the text between line feeds, one trailing carriage return
  dropped, a final line without a line feed included when it is not empty. A line of
  \<open>MaxScanTokenSize\<close> bytes or more does not fit the scanner's buffer: \<open>Scan\<close> returns
  false there and the loop ends.
\<close>

definition MaxScanTokenSize :: nat where
  "MaxScanTokenSize = 64 * 1024"

definition dropCR :: "string \<Rightarrow> string" where
  "dropCR l = (if l \<noteq> [] \<and> last l = CHR 0x0D then butlast l else l)"

function scanLines :: "string \<Rightarrow> string list" where
  "scanLines [] = []"
| "scanLines (c # cs) =
     (let l = takeWhile (\<lambda>x. x \<noteq> CHR 0x0A) (c # cs)
      in if MaxScanTokenSize \<le> length l then []
         else dropCR l # scanLines (drop (length l) cs))"
  by pat_completeness auto
termination
  by (relation "measure length") auto

declare scanLines.simps(2) [simp del]

subsection \<open>The configuration\<close>

record Config =
  StartDir :: string
  Extension :: string
  PrefixToStrip :: string
  ShowSuccess :: bool
  AutoSave :: bool
  GitAutoCommit :: bool

definition AppName :: string where
  "AppName = ''dgGit''"

definition ConfigFileName :: string where
  "ConfigFileName = ''dggit.cfg''"

text \<open>The zero value \<open>Config{}\<close>.\<close>

definition zeroConfig :: Config where
  "zeroConfig = \<lparr>StartDir = [], Extension = [], PrefixToStrip = [],
     ShowSuccess = False, AutoSave = False, GitAutoCommit = False\<rparr>"

text \<open>The defaults \<open>loadConfig\<close> starts from when the file exists.\<close>

definition defaultConfig :: Config where
  "defaultConfig = \<lparr>StartDir = ''.'', Extension = ''.dg'', PrefixToStrip = ''void '',
     ShowSuccess = True, AutoSave = False, GitAutoCommit = False\<rparr>"

text \<open>The body of the scanning loop of \<open>loadConfig\<close>, for one line; \<open>continue\<close> leaves
  the configuration as it is.\<close>

definition parseLine :: "Config \<Rightarrow> string \<Rightarrow> Config" where
  "parseLine cfg text =
     (let line = TrimSpace text in
      if line = [] \<or> HasPrefix line ''#'' then cfg
      else (case SplitN2 line (CHR ''='') of
              [p0, p1] \<Rightarrow>
                (let key = ToLower (TrimSpace p0); val = TrimSpace p1 in
                 if key = ''startdir'' then cfg\<lparr>StartDir := val\<rparr>
                 else if key = ''extension'' then cfg\<lparr>Extension := val\<rparr>
                 else if key = ''prefixtostrip'' then cfg\<lparr>PrefixToStrip := Trim val (CHR 0x22)\<rparr>
                 else if key = ''showsuccessmessage'' then cfg\<lparr>ShowSuccess := (val = ''true'')\<rparr>
                 else if key = ''autosave'' then cfg\<lparr>AutoSave := (val = ''true'')\<rparr>
                 else if key = ''gitautocommit'' then cfg\<lparr>GitAutoCommit := (val = ''true'')\<rparr>
                 else cfg)
            | _ \<Rightarrow> cfg))"

definition parseConfig :: "string \<Rightarrow> Config" where
  "parseConfig data = foldl parseLine defaultConfig (scanLines data)"

text \<open>
  The file format in the words of the specification, to compare \<open>parseConfig\<close> with.
  \<open>parseEntry\<close> is the key and the value one line stands for: the line is trimmed; a
  blank line, a line starting with \<open>#\<close> and a line without \<open>=\<close> stand for nothing;
  otherwise the key is the trimmed text before the first \<open>=\<close> in lower case, and the
  value is the trimmed text after it. \<open>lastValue key ls\<close> is the value of the last line
  of \<open>ls\<close> that has this key, if any.
\<close>

definition parseEntry :: "string \<Rightarrow> (string \<times> string) option" where
  "parseEntry text =
     (let line = TrimSpace text;
          before = takeWhile (\<lambda>c. c \<noteq> CHR ''='') line
      in if line = [] \<or> hd line = CHR ''#'' then None
         else if CHR ''='' \<notin> set line then None
         else Some (ToLower (TrimSpace before), TrimSpace (drop (Suc (length before)) line)))"

definition lastValue :: "string \<Rightarrow> string list \<Rightarrow> string option" where
  "lastValue key ls =
     (case filter (\<lambda>e. fst e = key) (List.map_filter parseEntry ls) of
        [] \<Rightarrow> None
      | e # es \<Rightarrow> Some (snd (last (e # es))))"

text \<open>A value that the file format keeps as it is: one line, no white space around it.\<close>

definition plainValue :: "string \<Rightarrow> bool" where
  "plainValue v = (CHR 0x0A \<notin> set v \<and> TrimSpace v = v)"

text \<open>The verb \<open>%t\<close> of \<open>fmt.Sprintf\<close>.\<close>

definition fmtBool :: "bool \<Rightarrow> string" where
  "fmtBool b = (if b then ''true'' else ''false'')"

definition unlines :: "string list \<Rightarrow> string" where
  "unlines ls = concat (map (\<lambda>l. l @ [CHR 0x0A]) ls)"

text \<open>The text \<open>saveConfigToFile\<close> writes: the format string of the source, line by
  line, every line ended by a line feed.\<close>

definition configLines :: "Config \<Rightarrow> string list" where
  \<open>configLines cfg =
    [''# dgGit Configuration File'',
     '''',
     ''# 1. Default Save Directory'',
     ''# The folder where files will save (unless you right-click a specific folder).'',
     ''StartDir='' @ StartDir cfg,
     '''',
     ''# 2. File Extension'',
     ''# The extension appended to saved files (e.g. .dg, .txt, .js)'',
     ''Extension='' @ Extension cfg,
     '''',
     ''# 3. Clipboard Cleaning'',
     ''# Text to automatically remove from the start of the filename.'',
     ''# You can separate multiple options with a pipe symbol "|".'',
     ''# Example: "void |int |string "'',
     ''PrefixToStrip='' @ PrefixToStrip cfg,
     '''',
     ''# 4. User Interface'',
     ''# Show a popup message when a file is saved successfully? (true/false)'',
     ''ShowSuccessMessage='' @ fmtBool (ShowSuccess cfg),
     '''',
     ''# 5. Automation'',
     ''# Save immediately to StartDir without showing the folder browser? (true/false)'',
     ''AutoSave='' @ fmtBool (AutoSave cfg),
     '''',
     ''# 6. Version Control'',
     ''# Automatically run 'git add' and 'git commit' after saving? (true/false)'',
     ''# Note: Git must be installed and the target folder must be a git repo.'',
     ''GitAutoCommit='' @ fmtBool (GitAutoCommit cfg)]\<close>

definition configText :: "Config \<Rightarrow> string" where
  "configText cfg = unlines (configLines cfg)"

subsection \<open>The filename deriver\<close>

definition illegalChars :: "char list" where
  \<open>illegalChars = [CHR ''<'', CHR ''>'', CHR '':'', CHR 0x22, CHR ''/'', CHR 0x5C,
     CHR ''|'', CHR ''?'', CHR ''*'']\<close>

definition sanitizeFilename :: "string \<Rightarrow> string" where
  "sanitizeFilename name = foldl (\<lambda>n c. ReplaceAll n c ''_'') name illegalChars"

text \<open>The loop over the candidates of the prefix set: the first candidate that is not
  empty and starts the line is removed, and the loop ends (\<open>break\<close>).\<close>

fun stripLoop :: "string \<Rightarrow> string list \<Rightarrow> string" where
  "stripLoop firstLine [] = firstLine"
| "stripLoop firstLine (p # ps) =
     (if p \<noteq> [] \<and> HasPrefix firstLine p then TrimPrefix firstLine p
      else stripLoop firstLine ps)"

definition filenameRaw :: "Config \<Rightarrow> string \<Rightarrow> string" where
  "filenameRaw cfg firstLine =
     (if PrefixToStrip cfg \<noteq> [] then stripLoop firstLine (Split (PrefixToStrip cfg) (CHR ''|''))
      else firstLine)"

definition safeFilename :: "Config \<Rightarrow> string \<Rightarrow> string" where
  "safeFilename cfg firstLine =
     sanitizeFilename (TrimSpace (filenameRaw cfg firstLine)) @ Extension cfg"

subsection \<open>The outside world\<close>

text \<open>
  A path \<open>(dir, name)\<close> stands for \<open>filepath.Join(dir, name)\<close>. A message stands for one
  format string of the source with the arguments it is filled with; the fixed texts of
  the wizard are named, not spelled out. An event is one call that acts on the world.
  The pauses (\<open>time.Sleep\<close>) of the wizard and the read-only queries \<open>os.Stat\<close> and
  \<open>os.Executable\<close> are not events.
\<close>

type_synonym path = "string \<times> string"

datatype message =
    Welcome
  | Step1Instructions
  | Step2Instructions
  | Step3Instructions
  | SetupCancelled
  | ShortcutFailed string
  | SetupComplete path
  | RegistryFailed string
  | SaveFailed string
  | Saved path string

datatype event =
    Info message
  | Warning message
  | Error message
  | DirectoryDialog string "string option"
  | Entry string string
  | Question string bool
  | ConfigWrite path string
  | DesktopShortcut
  | RegistryUpdate
  | ClipboardRead
  | SaveWrite path string
  | GitCommit string string
  | ClipboardWrite string

text \<open>What \<open>os.Stat\<close> followed by \<open>os.Open\<close> finds at the configuration path.\<close>

datatype fileState = NotExist | Unreadable | Contents string

text \<open>
  The answers of the world during one run. An error result is \<open>None\<close> where the call
  returns a value or an error, and \<open>Some text\<close> where the call returns only an error.
  \<open>dlgs.Entry\<close> returns the text and a success flag; \<open>dlgs.Question\<close> returns the answer
  and an error, kept here as the pair of the answer and the error text if any.
\<close>

record Env =
  osArgs :: "string list"
  exeDir :: string
  configFile :: fileState
  wizardBrowse :: "string option"
  wizardExtension :: "string \<times> bool"
  wizardPrefix :: "string \<times> bool"
  wizardUseGit :: "bool \<times> string option"
  wizardAutoSave :: "bool \<times> string option"
  wizardShortcut :: "bool \<times> string option"
  shortcutError :: "string option"
  registryError :: "string option"
  statOk :: "string \<Rightarrow> bool"
  statIsDir :: "string \<Rightarrow> bool"
  folderBrowse :: "string option"
  clipboardText :: "string option"
  saveError :: "string option"
  gitError :: "string option"

text \<open>Where \<open>main\<close> returns.\<close>

datatype exit =
    SetupWasCancelled
  | RegistryError
  | FirstRunDone
  | NoSaveDir
  | NoClipboard
  | EmptyFirstLine
  | IndexPanic
  | WriteFailed
  | Done

subsection \<open>Setup wizard and configuration loading\<close>

definition wizardBrowseTitle :: string where
  "wizardBrowseTitle =
     ''Step 1: Select a folder in which to save the code copied to your clipboard (local repo?)''"

definition folderPromptTitle :: string where
  "folderPromptTitle =
     ''Be sure you have COPIED YOUR CODE TO THE CLIPBOARD FIRST and then select folder to save code into''"

definition saveConfigToFile :: "path \<Rightarrow> Config \<Rightarrow> event list" where
  "saveConfigToFile p cfg = [ConfigWrite p (configText cfg)]"

definition runSetupWizard :: "Env \<Rightarrow> path \<Rightarrow> Config \<times> bool \<times> event list" where
  "runSetupWizard env configPath =
     (let ev1 = [Info Welcome, Info Step1Instructions,
                 DirectoryDialog wizardBrowseTitle None]
      in case wizardBrowse env of
           None \<Rightarrow> (zeroConfig, True, ev1 @ [Warning SetupCancelled])
         | Some startDir \<Rightarrow>
      (let ev2 = ev1 @ [Info Step2Instructions, Entry ''Step 2: File Extension'' ''.dg''];
           (ext, success) = wizardExtension env
       in if \<not> success then (zeroConfig, True, ev2 @ [Warning SetupCancelled]) else
      (let ev3 = ev2 @ [Info Step3Instructions, Entry ''Step 3: Prefix Stripping'' ''void |int |string ''];
           (pre, success) = wizardPrefix env
       in if \<not> success then (zeroConfig, True, ev3 @ [Warning SetupCancelled]) else
      (let useGit = fst (wizardUseGit env);
           autoSave = fst (wizardAutoSave env);
           createShortcut = fst (wizardShortcut env);
           ev4 = ev3 @ [Question ''Step 4: Git Integration'' False,
                        Question ''Step 5: Auto-Save Mode'' False,
                        Question ''Step 6: Desktop Shortcut'' True];
           newCfg = \<lparr>StartDir = startDir, Extension = ext, PrefixToStrip = pre,
                     ShowSuccess = True, AutoSave = autoSave, GitAutoCommit = useGit\<rparr>;
           ev5 = ev4 @ saveConfigToFile configPath newCfg;
           ev6 = ev5 @ (if createShortcut
                        then DesktopShortcut #
                             (case shortcutError env of
                                None \<Rightarrow> []
                              | Some err \<Rightarrow> [Error (ShortcutFailed err)])
                        else [])
       in (newCfg, False, ev6 @ [Info (SetupComplete configPath)])))))"

text \<open>\<open>loadConfig\<close> returns the configuration, the cancelled flag and the first-run
  flag.\<close>

definition loadConfig :: "Env \<Rightarrow> Config \<times> bool \<times> bool \<times> event list" where
  "loadConfig env =
     (let p = (exeDir env, ConfigFileName) in
      case configFile env of
        NotExist \<Rightarrow> (case runSetupWizard env p of (cfg, cancelled, evs) \<Rightarrow> (cfg, cancelled, True, evs))
      | Unreadable \<Rightarrow> (defaultConfig, False, False, [])
      | Contents data \<Rightarrow> (parseConfig data, False, False, []))"

subsection \<open>The run\<close>

definition askForFolder :: "Env \<Rightarrow> string \<Rightarrow> string \<times> event list" where
  "askForFolder env startDir =
     (let seed = (if statOk env startDir \<and> statIsDir env startDir then Some startDir else None);
          evs = [DirectoryDialog folderPromptTitle seed]
      in case folderBrowse env of
           None \<Rightarrow> ([], evs)
         | Some dir \<Rightarrow> (dir, evs))"

text \<open>Step 3 of \<open>main\<close>: the save directory.\<close>

definition resolveSaveDir :: "Env \<Rightarrow> Config \<Rightarrow> string \<times> event list" where
  "resolveSaveDir env cfg =
     (if length (osArgs env) > 1 then (TrimSpace (osArgs env ! 1), [])
      else if AutoSave cfg then
        (if statOk env (StartDir cfg) then (StartDir cfg, [])
         else askForFolder env (StartDir cfg))
      else askForFolder env (StartDir cfg))"

text \<open>Step 5 of \<open>main\<close>, the first line of the clipboard text: \<open>lines[0]\<close> without its
  carriage returns, trimmed. \<open>None\<close> stands for the panic of an index out of range.\<close>

definition firstLineOf :: "string \<Rightarrow> string option" where
  "firstLineOf content =
     (case Split content (CHR 0x0A) of
        [] \<Rightarrow> None
      | l0 # _ \<Rightarrow> Some (TrimSpace (ReplaceAll l0 (CHR 0x0D) [])))"

text \<open>Steps 4 to 9 of \<open>main\<close>: from the clipboard to the success message.\<close>

definition savePipeline :: "Env \<Rightarrow> Config \<Rightarrow> string \<Rightarrow> exit \<times> event list" where
  "savePipeline env cfg saveDir =
     (case clipboardText env of
        None \<Rightarrow> (NoClipboard, [ClipboardRead])
      | Some content \<Rightarrow>
     (if content = [] then (NoClipboard, [ClipboardRead]) else
     (case firstLineOf content of
        None \<Rightarrow> (IndexPanic, [ClipboardRead])
      | Some line \<Rightarrow>
     (if line = [] then (EmptyFirstLine, [ClipboardRead]) else
     (let name = safeFilename cfg line;
          fullPath = (saveDir, name);
          ev1 = [ClipboardRead, SaveWrite fullPath content]
      in case saveError env of
           Some err \<Rightarrow> (WriteFailed, ev1 @ [Error (SaveFailed err)])
         | None \<Rightarrow>
     (let (gitMessage, ev2) =
            (if GitAutoCommit cfg then
               (case gitError env of
                  Some err \<Rightarrow> ([CHR 0x0A] @ ''(Git Commit Failed: '' @ err @ '')'',
                               [GitCommit saveDir name])
                | None \<Rightarrow> ([CHR 0x0A] @ ''(Git Commit Successful)'', [GitCommit saveDir name]))
             else ([], []));
          ev3 = [ClipboardWrite []];
          ev4 = (if ShowSuccess cfg then [Info (Saved fullPath gitMessage)] else [])
      in (Done, ev1 @ ev2 @ ev3 @ ev4)))))))"

definition main :: "Env \<Rightarrow> exit \<times> event list" where
  "main env =
     (case loadConfig env of (cfg, cancelled, isFirstRun, ev1) \<Rightarrow>
      if cancelled then (SetupWasCancelled, ev1) else
     (case registryError env of
        Some err \<Rightarrow> (RegistryError, ev1 @ [RegistryUpdate, Error (RegistryFailed err)])
      | None \<Rightarrow>
     (let ev2 = ev1 @ [RegistryUpdate] in
      if isFirstRun then (FirstRunDone, ev2) else
     (case resolveSaveDir env cfg of (saveDir, ev3) \<Rightarrow>
      if saveDir = [] then (NoSaveDir, ev2 @ ev3) else
     (case savePipeline env cfg saveDir of (x, ev4) \<Rightarrow> (x, ev2 @ ev3 @ ev4))))))"

subsection \<open>Kinds of events\<close>

text \<open>What the pipeline does after it has read the clipboard: the file write, its error
  dialog, the commit, the clearing of the clipboard, the success dialog.\<close>

fun pipelineEffect :: "event \<Rightarrow> bool" where
  "pipelineEffect (SaveWrite p c) = True"
| "pipelineEffect (Error (SaveFailed e)) = True"
| "pipelineEffect (GitCommit d n) = True"
| "pipelineEffect (ClipboardWrite c) = True"
| "pipelineEffect (Info (Saved p g)) = True"
| "pipelineEffect e = False"

text \<open>The interactive folder prompt of \<open>askForFolder\<close>.\<close>

fun isFolderPrompt :: "event \<Rightarrow> bool" where
  "isFolderPrompt (DirectoryDialog title seed) = (title = folderPromptTitle)"
| "isFolderPrompt e = False"

fun isConfigWrite :: "event \<Rightarrow> bool" where
  "isConfigWrite (ConfigWrite p c) = True"
| "isConfigWrite e = False"

subsection \<open>Sample runs\<close>

text \<open>A first run: no configuration file, every wizard prompt answered with its
  default, the registry update succeeds, the clipboard holds two lines.\<close>

definition firstRunEnv :: Env where
  "firstRunEnv =
     \<lparr>osArgs = [''dgGit.exe''], exeDir = ''C:/dgGit'', configFile = NotExist,
      wizardBrowse = Some ''C:/repo'', wizardExtension = (''.dg'', True),
      wizardPrefix = (''void |int |string '', True),
      wizardUseGit = (False, None), wizardAutoSave = (False, None),
      wizardShortcut = (False, None), shortcutError = None, registryError = None,
      statOk = (\<lambda>p. p = ''C:/repo''), statIsDir = (\<lambda>p. p = ''C:/repo''),
      folderBrowse = Some ''C:/repo'',
      clipboardText = Some (''int main(){}'' @ [CHR 0x0A] @ ''body''),
      saveError = None, gitError = None\<rparr>"

text \<open>A later run: the configuration file exists; it names the default directory and
  switches auto-save on.\<close>

definition laterRunLines :: "string list" where
  "laterRunLines = [''StartDir='' @ ''C:/repo'', ''AutoSave='' @ ''true'']"

definition laterRunEnv :: Env where
  "laterRunEnv = firstRunEnv\<lparr>configFile := Contents (unlines laterRunLines)\<rparr>"

text \<open>A first run on which the question about git is closed with an error.\<close>

definition questionCancelledEnv :: Env where
  "questionCancelledEnv = firstRunEnv\<lparr>wizardUseGit := (False, Some ''cancelled'')\<rparr>"

text \<open>The configuration the wizard builds when every prompt is answered with its
  default, as in \<open>firstRunEnv\<close>.\<close>

definition wizardDefaults :: Config where
  "wizardDefaults = \<lparr>StartDir = ''C:/repo'', Extension = ''.dg'',
     PrefixToStrip = ''void |int |string '', ShowSuccess = True, AutoSave = False,
     GitAutoCommit = False\<rparr>"

text \<open>A prefix set whose first candidate starts its second one.\<close>

definition nestedPrefixConfig :: Config where
  "nestedPrefixConfig = defaultConfig\<lparr>PrefixToStrip := ''v|void''\<rparr>"

text \<open>The lines of a hand-edited configuration file: a comment, a blank line, a key in
  capitals with spaces around key and value, a boolean that is not the token \<open>true\<close>,
  a key the program does not know, a line without \<open>=\<close>.\<close>

definition sampleLines :: "string list" where
  "sampleLines = [''# settings'', [], ''  EXTENSION = .txt  '', ''autosave=TRUE'',
     ''bogus=1'', ''ShowSuccessMessage=yes'', ''novalue'', ''GitAutoCommit=true'']"

section \<open>Properties\<close>

subsection \<open>Strings\<close>

lemma ReplaceAll_byte: "ReplaceAll s old [new] = map (\<lambda>c. if c = old then new else c) s"
  by (induction s) (simp_all add: ReplaceAll_def)

lemma trimLeftSeqs_none:
  "find (\<lambda>w. w \<noteq> [] \<and> prefix w s) ws = None \<Longrightarrow> trimLeftSeqs ws s = s"
  by (subst trimLeftSeqs.simps) simp

lemma trimLeftSeqs_some:
  "find (\<lambda>w. w \<noteq> [] \<and> prefix w s) ws = Some w \<Longrightarrow>
     trimLeftSeqs ws s = trimLeftSeqs ws (drop (length w) s)"
  by (subst trimLeftSeqs.simps) simp

lemma trimLeftSeqs_suffix: "suffix (trimLeftSeqs ws s) s"
proof (induction ws s rule: trimLeftSeqs.induct)
  case (1 ws s)
  show ?case
  proof (cases "find (\<lambda>w. w \<noteq> [] \<and> prefix w s) ws")
    case None
    then show ?thesis by (simp add: trimLeftSeqs_none)
  next
    case (Some w)
    with 1 have "suffix (trimLeftSeqs ws (drop (length w) s)) (drop (length w) s)" by simp
    then have "suffix (trimLeftSeqs ws (drop (length w) s)) s"
      using suffix_drop suffix_order.trans by metis
    then show ?thesis by (simp add: trimLeftSeqs_some [OF Some])
  qed
qed

lemma trimLeftSeqs_find: "find (\<lambda>w. w \<noteq> [] \<and> prefix w (trimLeftSeqs ws s)) ws = None"
proof (induction ws s rule: trimLeftSeqs.induct)
  case (1 ws s)
  show ?case
  proof (cases "find (\<lambda>w. w \<noteq> [] \<and> prefix w s) ws")
    case None
    then show ?thesis by (simp add: trimLeftSeqs_none)
  next
    case (Some w)
    with 1 show ?thesis by (simp add: trimLeftSeqs_some [OF Some])
  qed
qed

lemma trimLeftSeqs_fixed:
  "trimLeftSeqs ws s = s \<longleftrightarrow> find (\<lambda>w. w \<noteq> [] \<and> prefix w s) ws = None"
  using trimLeftSeqs_find [of ws s] trimLeftSeqs_none [of s ws] by auto

lemma trimLeftSeqs_idem: "trimLeftSeqs ws (trimLeftSeqs ws s) = trimLeftSeqs ws s"
  by (simp add: trimLeftSeqs_none trimLeftSeqs_find)

lemma find_prefix_mono:
  assumes "find (\<lambda>w. w \<noteq> [] \<and> prefix w s) ws = None" and "prefix r s"
  shows "find (\<lambda>w. w \<noteq> [] \<and> prefix w r) ws = None"
  using assms by (auto simp: find_None_iff dest: prefix_order.trans)

lemma TrimRightSpace_prefix: "prefix (TrimRightSpace s) s"
  using trimLeftSeqs_suffix [of "map rev whiteSpace" "rev s"]
  by (simp add: TrimRightSpace_def suffix_to_prefix)

lemma TrimRightSpace_idem: "TrimRightSpace (TrimRightSpace s) = TrimRightSpace s"
  by (simp add: TrimRightSpace_def trimLeftSeqs_idem)

text \<open>Trimming a trimmed string changes nothing.\<close>

lemma TrimSpace_idem: "TrimSpace (TrimSpace s) = TrimSpace s"
proof -
  let ?t = "TrimLeftSpace s"
  have "find (\<lambda>w. w \<noteq> [] \<and> prefix w ?t) whiteSpace = None"
    by (simp add: TrimLeftSpace_def trimLeftSeqs_find)
  then have "find (\<lambda>w. w \<noteq> [] \<and> prefix w (TrimRightSpace ?t)) whiteSpace = None"
    using TrimRightSpace_prefix by (rule find_prefix_mono)
  then have "TrimLeftSpace (TrimRightSpace ?t) = TrimRightSpace ?t"
    by (simp add: TrimLeftSpace_def trimLeftSeqs_none)
  then show ?thesis
    by (simp add: TrimSpace_def TrimRightSpace_idem)
qed

lemmas TrimSpace_eval =
  TrimSpace_def TrimLeftSpace_def TrimRightSpace_def trimLeftSeqs.simps whiteSpace_def

subsection \<open>The filename deriver\<close>

lemma sanitizeFilename_map:
  "sanitizeFilename name = map (\<lambda>c. if c \<in> set illegalChars then CHR ''_'' else c) name"
  by (induction name) (simp_all add: sanitizeFilename_def illegalChars_def ReplaceAll_byte)

lemma sanitizeFilename_legal: "set (sanitizeFilename name) \<inter> set illegalChars = {}"
  by (auto simp: sanitizeFilename_map illegalChars_def)

lemma stripLoop_find:
  "stripLoop line ps =
     (case find (\<lambda>p. p \<noteq> [] \<and> prefix p line) ps of
        None \<Rightarrow> line
      | Some p \<Rightarrow> drop (length p) line)"
  by (induction ps) (simp_all add: HasPrefix_def TrimPrefix_def)

lemma stripLoop_no_match:
  "\<forall>p\<in>set ps. p \<noteq> [] \<longrightarrow> \<not> HasPrefix line p \<Longrightarrow> stripLoop line ps = line"
  by (induction ps) auto

text \<open>
  Claim C4, as amended. The prefix set \<open>void |int |string \<close> splits on the pipe into the
  candidates \<open>void \<close>, \<open>int \<close>, \<open>string \<close>. The loop removes the first candidate, in
  listed order, that is not empty and starts the line, and nothing else. With this prefix
  set, a first line that starts with \<open>void foo(){}\<close> loses exactly \<open>void \<close>: its base
  name before the extension is the rest of the line, \<open>foo(){}\<close> and what follows it,
  trimmed and sanitized. When the first line is \<open>void foo(){}\<close> itself, the base name
  is \<open>foo(){}\<close>.
\<close>

theorem default_prefix_set_strips_void:
  "Split ''void |int |string '' (CHR ''|'') = [''void '', ''int '', ''string '']
   \<and> stripLoop line ps =
       (case find (\<lambda>p. p \<noteq> [] \<and> prefix p line) ps of
          None \<Rightarrow> line
        | Some p \<Rightarrow> drop (length p) line)
   \<and> (PrefixToStrip cfg = ''void |int |string '' \<longrightarrow>
        filenameRaw cfg (''void foo(){}'' @ rest) = ''foo(){}'' @ rest
      \<and> safeFilename cfg (''void foo(){}'' @ rest)
          = sanitizeFilename (TrimSpace (''foo(){}'' @ rest)) @ Extension cfg
      \<and> sanitizeFilename (TrimSpace (filenameRaw cfg ''void foo(){}'')) = ''foo(){}''
      \<and> safeFilename cfg ''void foo(){}'' = ''foo(){}'' @ Extension cfg)"
proof (intro conjI impI)
  show "Split ''void |int |string '' (CHR ''|'') = [''void '', ''int '', ''string '']"
    by simp
  show "stripLoop line ps =
       (case find (\<lambda>p. p \<noteq> [] \<and> prefix p line) ps of
          None \<Rightarrow> line
        | Some p \<Rightarrow> drop (length p) line)"
    by (rule stripLoop_find)
next
  assume p: "PrefixToStrip cfg = ''void |int |string ''"
  show q: "filenameRaw cfg (''void foo(){}'' @ rest) = ''foo(){}'' @ rest"
    by (simp add: filenameRaw_def p HasPrefix_def TrimPrefix_def)
  show "safeFilename cfg (''void foo(){}'' @ rest)
          = sanitizeFilename (TrimSpace (''foo(){}'' @ rest)) @ Extension cfg"
    unfolding safeFilename_def q ..
  have r: "filenameRaw cfg ''void foo(){}'' = ''foo(){}''"
    by (simp add: filenameRaw_def p HasPrefix_def TrimPrefix_def)
  have t: "TrimSpace ''foo(){}'' = ''foo(){}''"
    by (simp add: TrimSpace_eval)
  show s: "sanitizeFilename (TrimSpace (filenameRaw cfg ''void foo(){}'')) = ''foo(){}''"
    by (simp add: r t sanitizeFilename_map illegalChars_def)
  show "safeFilename cfg ''void foo(){}'' = ''foo(){}'' @ Extension cfg"
    using s by (simp add: safeFilename_def)
qed

theorem default_prefix_set_strips_void_witness:
  "PrefixToStrip (defaultConfig\<lparr>PrefixToStrip := ''void |int |string ''\<rparr>) = ''void |int |string ''
   \<and> safeFilename (defaultConfig\<lparr>PrefixToStrip := ''void |int |string ''\<rparr>) ''void foo(){}''
       = ''foo(){}.dg''"
proof -
  let ?cfg = "defaultConfig\<lparr>PrefixToStrip := ''void |int |string ''\<rparr>"
  have p: "PrefixToStrip ?cfg = ''void |int |string ''" by simp
  have e: "Extension ?cfg = ''.dg''" by (simp add: defaultConfig_def)
  have "safeFilename ?cfg ''void foo(){}'' = ''foo(){}'' @ Extension ?cfg"
    using default_prefix_set_strips_void [of "''int x''" "[''void '', ''int '']" ?cfg "[]"] p
    by blast
  then have "safeFilename ?cfg ''void foo(){}'' = ''foo(){}.dg''"
    unfolding e by simp
  with p show ?thesis by blast
qed

text \<open>
  Claim C4 fails as stated. The first line \<open>void foo(){} // x\<close> starts with
  \<open>void foo(){}\<close>; only \<open>void \<close> is removed, the rest of the line stays, and the base
  name before the extension is \<open>foo(){} __ x\<close>, not \<open>foo(){}\<close>.
\<close>

theorem longer_first_line_keeps_its_rest:
  "PrefixToStrip (defaultConfig\<lparr>PrefixToStrip := ''void |int |string ''\<rparr>) = ''void |int |string ''
   \<and> prefix ''void foo(){}'' ''void foo(){} // x''
   \<and> TrimSpace ''void foo(){} // x'' = ''void foo(){} // x''
   \<and> sanitizeFilename (TrimSpace (filenameRaw
         (defaultConfig\<lparr>PrefixToStrip := ''void |int |string ''\<rparr>) ''void foo(){} // x''))
       = ''foo(){} __ x''
   \<and> safeFilename (defaultConfig\<lparr>PrefixToStrip := ''void |int |string ''\<rparr>) ''void foo(){} // x''
       = ''foo(){} __ x.dg''"
proof -
  let ?cfg = "defaultConfig\<lparr>PrefixToStrip := ''void |int |string ''\<rparr>"
  have t1: "TrimSpace ''void foo(){} // x'' = ''void foo(){} // x''"
    by (simp add: TrimSpace_eval)
  have t2: "TrimSpace ''foo(){} // x'' = ''foo(){} // x''"
    by (simp add: TrimSpace_eval)
  have r: "filenameRaw ?cfg ''void foo(){} // x'' = ''foo(){} // x''"
    by (simp add: filenameRaw_def HasPrefix_def TrimPrefix_def)
  have s: "sanitizeFilename (TrimSpace (filenameRaw ?cfg ''void foo(){} // x'')) = ''foo(){} __ x''"
    by (simp add: r t2 sanitizeFilename_map illegalChars_def)
  have e: "Extension ?cfg = ''.dg''" by (simp add: defaultConfig_def)
  have f: "safeFilename ?cfg ''void foo(){} // x'' = ''foo(){} __ x.dg''"
    unfolding safeFilename_def s e by simp
  show ?thesis
    using t1 s f by simp
qed

text \<open>
  Claim C5, as amended. \<open>sanitizeFilename\<close> replaces every occurrence of each of the
  nine characters \<open>< > : " / \ | ? *\<close> by an underscore and changes no other character,
  so the sanitized base name contains none of the nine. The file name is this base name
  followed by the configured extension, which is appended as it is: the whole file name
  contains none of the nine exactly when the extension contains none.
\<close>

theorem sanitized_name_has_no_illegal_char:
  "sanitizeFilename name = map (\<lambda>c. if c \<in> set illegalChars then CHR ''_'' else c) name
   \<and> set (sanitizeFilename name) \<inter> set illegalChars = {}
   \<and> (\<exists>base. safeFilename cfg firstLine = base @ Extension cfg
         \<and> base = map (\<lambda>c. if c \<in> set illegalChars then CHR ''_'' else c)
                    (TrimSpace (filenameRaw cfg firstLine))
         \<and> set base \<inter> set illegalChars = {})
   \<and> (set (safeFilename cfg firstLine) \<inter> set illegalChars = {}
        \<longleftrightarrow> set (Extension cfg) \<inter> set illegalChars = {})"
proof (intro conjI)
  show "sanitizeFilename name = map (\<lambda>c. if c \<in> set illegalChars then CHR ''_'' else c) name"
    by (rule sanitizeFilename_map)
  show "set (sanitizeFilename name) \<inter> set illegalChars = {}"
    by (rule sanitizeFilename_legal)
  have b: "set (sanitizeFilename (TrimSpace (filenameRaw cfg firstLine))) \<inter> set illegalChars = {}"
    by (rule sanitizeFilename_legal)
  then show "\<exists>base. safeFilename cfg firstLine = base @ Extension cfg
         \<and> base = map (\<lambda>c. if c \<in> set illegalChars then CHR ''_'' else c)
                    (TrimSpace (filenameRaw cfg firstLine))
         \<and> set base \<inter> set illegalChars = {}"
    by (simp add: safeFilename_def sanitizeFilename_map)
  show "set (safeFilename cfg firstLine) \<inter> set illegalChars = {}
        \<longleftrightarrow> set (Extension cfg) \<inter> set illegalChars = {}"
    using b by (auto simp: safeFilename_def)
qed

theorem sanitized_name_has_no_illegal_char_witness:
  "sanitizeFilename (''a<b>c:d/e|f?g*h'' @ [CHR 0x22, CHR 0x5C] @ ''i'') = ''a_b_c_d_e_f_g_h__i''"
  using sanitized_name_has_no_illegal_char
    [of "''a<b>c:d/e|f?g*h'' @ [CHR 0x22, CHR 0x5C] @ ''i''" defaultConfig "''x''"]
  by (simp add: illegalChars_def)

text \<open>
  Claim C5 fails as stated. The extension is appended after sanitization and is not
  sanitized: with the extension \<open>.c*\<close> the first line \<open>a<b\<close> gives the file name
  \<open>a_b.c*\<close>, which contains \<open>*\<close>.
\<close>

theorem unsanitized_extension_keeps_illegal_char:
  "safeFilename (defaultConfig\<lparr>Extension := ''.c*''\<rparr>) ''a<b'' = ''a_b.c*''
   \<and> CHR ''*'' \<in> set illegalChars
   \<and> CHR ''*'' \<in> set (safeFilename (defaultConfig\<lparr>Extension := ''.c*''\<rparr>) ''a<b'')"
proof -
  have t: "TrimSpace ''a<b'' = ''a<b''" by (simp add: TrimSpace_eval)
  have r: "filenameRaw (defaultConfig\<lparr>Extension := ''.c*''\<rparr>) ''a<b'' = ''a<b''"
    by (simp add: filenameRaw_def defaultConfig_def HasPrefix_def)
  have s: "safeFilename (defaultConfig\<lparr>Extension := ''.c*''\<rparr>) ''a<b'' = ''a_b.c*''"
    unfolding safeFilename_def r t by (simp add: sanitizeFilename_map illegalChars_def)
  show ?thesis
    unfolding s by (simp add: illegalChars_def)
qed

text \<open>
  Claim C9. When the first line (carriage returns removed, trimmed) starts with no
  candidate of the prefix set that is not empty, nothing is removed from it, and the
  base name before sanitization and extension is the trimmed first line.
\<close>

theorem unmatched_first_line_is_kept:
  assumes "\<forall>p\<in>set (Split (PrefixToStrip cfg) (CHR ''|'')).
             p \<noteq> [] \<longrightarrow> \<not> HasPrefix (TrimSpace raw) p"
  shows "filenameRaw cfg (TrimSpace raw) = TrimSpace raw
       \<and> TrimSpace (filenameRaw cfg (TrimSpace raw)) = TrimSpace raw"
  using assms by (simp add: filenameRaw_def stripLoop_no_match TrimSpace_idem)

theorem unmatched_first_line_is_kept_witness:
  "Split (PrefixToStrip defaultConfig) (CHR ''|'') = [''void '']
   \<and> \<not> HasPrefix (TrimSpace ''  main(){} '') ''void ''
   \<and> TrimSpace (filenameRaw defaultConfig (TrimSpace ''  main(){} '')) = ''main(){}''"
proof -
  have t: "TrimSpace ''  main(){} '' = ''main(){}''"
    by (simp add: TrimSpace_eval)
  have s: "Split (PrefixToStrip defaultConfig) (CHR ''|'') = [''void '']"
    by (simp add: defaultConfig_def)
  have h: "\<forall>p\<in>set (Split (PrefixToStrip defaultConfig) (CHR ''|'')).
             p \<noteq> [] \<longrightarrow> \<not> HasPrefix (TrimSpace ''  main(){} '') p"
    by (simp add: s t HasPrefix_def)
  have np: "\<not> HasPrefix (TrimSpace ''  main(){} '') ''void ''"
    by (simp add: t HasPrefix_def)
  have "TrimSpace (filenameRaw defaultConfig (TrimSpace ''  main(){} '')) = TrimSpace ''  main(){} ''"
    using unmatched_first_line_is_kept [OF h] by (rule conjunct2)
  then have c: "TrimSpace (filenameRaw defaultConfig (TrimSpace ''  main(){} '')) = ''main(){}''"
    by (simp only: t)
  show ?thesis
    using s np c by blast
qed

subsection \<open>The configuration file\<close>

lemma takeWhile_line: "c \<notin> set l \<Longrightarrow> takeWhile (\<lambda>x. x \<noteq> c) (l @ c # rest) = l"
  by (induction l) auto

lemma scanLines_line:
  assumes "CHR 0x0A \<notin> set l" and "length l < MaxScanTokenSize"
  shows "scanLines (l @ CHR 0x0A # rest) = dropCR l # scanLines rest"
proof (cases l)
  case Nil
  then show ?thesis by (simp add: scanLines.simps MaxScanTokenSize_def)
next
  case (Cons c l')
  have t: "takeWhile (\<lambda>x. x \<noteq> CHR 0x0A) (c # l' @ CHR 0x0A # rest) = c # l'"
    using takeWhile_line [of "CHR 0x0A" l rest] assms(1) Cons by simp
  have "scanLines (c # (l' @ CHR 0x0A # rest)) = dropCR (c # l') # scanLines rest"
    using assms(2) Cons by (subst scanLines.simps) (simp add: t Let_def del: takeWhile.simps)
  then show ?thesis using Cons by simp
qed

lemma scanLines_unlines:
  "\<forall>l\<in>set ls. CHR 0x0A \<notin> set l \<and> length l < MaxScanTokenSize \<Longrightarrow>
     scanLines (unlines ls) = map dropCR ls"
proof (induction ls)
  case Nil
  then show ?case by (simp add: unlines_def)
next
  case (Cons l ls)
  then have "scanLines (l @ CHR 0x0A # unlines ls) = dropCR l # scanLines (unlines ls)"
    by (intro scanLines_line) simp_all
  with Cons show ?case by (simp add: unlines_def)
qed

lemma SplitN2_alt:
  "SplitN2 s c =
     (if c \<in> set s then [takeWhile (\<lambda>x. x \<noteq> c) s, drop (Suc (length (takeWhile (\<lambda>x. x \<noteq> c) s))) s]
      else [s])"
proof (cases "c \<in> set s")
  case False
  then have d: "dropWhile (\<lambda>x. x \<noteq> c) s = []" by auto
  show ?thesis unfolding SplitN2_def d using False by simp
next
  case True
  then have "dropWhile (\<lambda>x. x \<noteq> c) s \<noteq> []" by simp
  then obtain y rest where d: "dropWhile (\<lambda>x. x \<noteq> c) s = y # rest"
    by (cases "dropWhile (\<lambda>x. x \<noteq> c) s") auto
  have "drop (length (takeWhile (\<lambda>x. x \<noteq> c) s)) s = y # rest"
    using d by (simp add: dropWhile_eq_drop)
  then have "drop (Suc (length (takeWhile (\<lambda>x. x \<noteq> c) s))) s = rest"
    by (metis drop_Suc tl_drop list.sel(3))
  then show ?thesis unfolding SplitN2_def d using True by simp
qed

text \<open>The loop body in terms of the entry a line stands for.\<close>

lemma parseLine_entry:
  "parseLine cfg text =
     (case parseEntry text of
        None \<Rightarrow> cfg
      | Some (key, val) \<Rightarrow>
          if key = ''startdir'' then cfg\<lparr>StartDir := val\<rparr>
          else if key = ''extension'' then cfg\<lparr>Extension := val\<rparr>
          else if key = ''prefixtostrip'' then cfg\<lparr>PrefixToStrip := Trim val (CHR 0x22)\<rparr>
          else if key = ''showsuccessmessage'' then cfg\<lparr>ShowSuccess := (val = ''true'')\<rparr>
          else if key = ''autosave'' then cfg\<lparr>AutoSave := (val = ''true'')\<rparr>
          else if key = ''gitautocommit'' then cfg\<lparr>GitAutoCommit := (val = ''true'')\<rparr>
          else cfg)"
proof -
  have h: "HasPrefix l ''#'' \<longleftrightarrow> l \<noteq> [] \<and> hd l = CHR ''#''" for l
    by (cases l) (auto simp: HasPrefix_def)
  show ?thesis
    by (simp add: parseLine_def parseEntry_def SplitN2_alt Let_def h)
qed


text \<open>What trimming leaves alone.\<close>

lemma TrimSpace_fixed:
  assumes "TrimSpace v = v"
  shows "TrimLeftSpace v = v" and "TrimRightSpace v = v"
proof -
  let ?t = "TrimLeftSpace v"
  have s: "suffix ?t v" by (simp add: TrimLeftSpace_def trimLeftSeqs_suffix)
  have p: "prefix (TrimRightSpace ?t) ?t" by (rule TrimRightSpace_prefix)
  have "length v = length (TrimRightSpace ?t)" using assms by (simp add: TrimSpace_def)
  also have "\<dots> \<le> length ?t" using p by (rule prefix_length_le)
  finally have "length v \<le> length ?t" .
  moreover have "length ?t \<le> length v" using s by (rule suffix_length_le)
  ultimately have "length ?t = length v" by simp
  with s show l: "TrimLeftSpace v = v"
    by (metis suffix_def append_eq_append_conv append_Nil)
  with assms show "TrimRightSpace v = v" by (simp add: TrimSpace_def)
qed

lemma TrimSpace_no_final_CR:
  assumes "TrimSpace v = v"
  shows "v = [] \<or> last v \<noteq> CHR 0x0D"
proof (cases "v = []")
  case True
  then show ?thesis by simp
next
  case False
  have "rev (trimLeftSeqs (map rev whiteSpace) (rev v)) = v"
    using TrimSpace_fixed(2) [OF assms] by (simp add: TrimRightSpace_def)
  then have "trimLeftSeqs (map rev whiteSpace) (rev v) = rev v"
    by (metis rev_rev_ident)
  then have "find (\<lambda>w. w \<noteq> [] \<and> prefix w (rev v)) (map rev whiteSpace) = None"
    by (simp add: trimLeftSeqs_fixed)
  moreover have "[CHR 0x0D] \<in> set (map rev whiteSpace)"
    by (simp add: whiteSpace_def)
  ultimately have "\<not> prefix [CHR 0x0D] (rev v)"
    by (auto simp: find_None_iff)
  then have "last v \<noteq> CHR 0x0D"
    using False by (cases v rule: rev_cases) auto
  then show ?thesis by simp
qed

lemma find_barrier:
  assumes "find (\<lambda>w. w \<noteq> [] \<and> prefix w s) ws = None"
    and "\<forall>w\<in>set ws. c \<notin> set w"
  shows "find (\<lambda>w. w \<noteq> [] \<and> prefix w (s @ c # x)) ws = None"
proof -
  { fix w assume w: "w \<in> set ws" "w \<noteq> []" "prefix w (s @ c # x)"
    from w(3) have "prefix w s \<or> (\<exists>us. w = s @ us \<and> prefix us (c # x))"
      by (simp add: prefix_append)
    moreover have "\<not> prefix w s" using assms(1) w(1,2) by (auto simp: find_None_iff)
    ultimately obtain us where us: "w = s @ us" "prefix us (c # x)" by blast
    from us(1) \<open>\<not> prefix w s\<close> have "us \<noteq> []" by auto
    with us(2) have "c \<in> set us" by (cases us) auto
    with us(1) assms(2) w(1) have False by auto }
  then show ?thesis by (auto simp: find_None_iff)
qed

lemma whiteSpace_no_equals: "\<forall>w\<in>set (map rev whiteSpace). CHR ''='' \<notin> set w"
  by (simp add: whiteSpace_def)

lemma TrimRightSpace_key_value:
  assumes "TrimSpace v = v"
  shows "TrimRightSpace (k @ CHR ''='' # v) = k @ CHR ''='' # v"
proof -
  have "trimLeftSeqs (map rev whiteSpace) (rev v) = rev v"
    using TrimSpace_fixed(2) [OF assms] by (metis TrimRightSpace_def rev_rev_ident)
  then have "find (\<lambda>w. w \<noteq> [] \<and> prefix w (rev v)) (map rev whiteSpace) = None"
    by (simp add: trimLeftSeqs_fixed)
  then have "find (\<lambda>w. w \<noteq> [] \<and> prefix w (rev v @ CHR ''='' # rev k)) (map rev whiteSpace) = None"
    using whiteSpace_no_equals by (rule find_barrier)
  then have "trimLeftSeqs (map rev whiteSpace) (rev (k @ CHR ''='' # v)) = rev (k @ CHR ''='' # v)"
    by (simp add: trimLeftSeqs_none)
  then show ?thesis by (simp add: TrimRightSpace_def)
qed

lemma TrimSpace_key_value:
  assumes "TrimSpace v = v" and "TrimLeftSpace (k @ CHR ''='' # v) = k @ CHR ''='' # v"
  shows "TrimSpace (k @ CHR ''='' # v) = k @ CHR ''='' # v"
  using assms by (simp add: TrimSpace_def TrimRightSpace_key_value)

lemma parseEntry_key_value:
  assumes "TrimSpace v = v" and "TrimLeftSpace (k @ CHR ''='' # v) = k @ CHR ''='' # v"
    and "CHR ''='' \<notin> set k" and "hd (k @ ''='') \<noteq> CHR ''#''"
  shows "parseEntry (k @ CHR ''='' # v) = Some (ToLower (TrimSpace k), v)"
proof -
  have t: "TrimSpace (k @ CHR ''='' # v) = k @ CHR ''='' # v"
    using assms(1,2) by (rule TrimSpace_key_value)
  have h: "hd (k @ CHR ''='' # v) \<noteq> CHR ''#''"
    using assms(4) by (cases k) auto
  have b: "takeWhile (\<lambda>c. c \<noteq> CHR ''='') (k @ CHR ''='' # v) = k"
    using assms(3) by (rule takeWhile_line)
  show ?thesis
    unfolding parseEntry_def t Let_def b using h assms(1) by simp
qed

lemma keys:
  "ToLower (TrimSpace ''StartDir'') = ''startdir''"
  "ToLower (TrimSpace ''Extension'') = ''extension''"
  "ToLower (TrimSpace ''PrefixToStrip'') = ''prefixtostrip''"
  "ToLower (TrimSpace ''ShowSuccessMessage'') = ''showsuccessmessage''"
  "ToLower (TrimSpace ''AutoSave'') = ''autosave''"
  "ToLower (TrimSpace ''GitAutoCommit'') = ''gitautocommit''"
  by code_simp+

lemma parseEntry_comment: "parseEntry (CHR ''#'' # r) = None"
proof -
  have "TrimLeftSpace (CHR ''#'' # r) = CHR ''#'' # r"
    by (simp add: TrimLeftSpace_def trimLeftSeqs_none whiteSpace_def)
  then have "prefix (TrimSpace (CHR ''#'' # r)) (CHR ''#'' # r)"
    using TrimRightSpace_prefix [of "CHR ''#'' # r"] by (simp add: TrimSpace_def)
  then have "TrimSpace (CHR ''#'' # r) = [] \<or> hd (TrimSpace (CHR ''#'' # r)) = CHR ''#''"
    by (cases "TrimSpace (CHR ''#'' # r)") auto
  then show ?thesis by (auto simp: parseEntry_def Let_def)
qed

lemma parseEntry_blank: "parseEntry [] = None"
  by (simp add: parseEntry_def TrimSpace_eval)


lemma dropCR_key_value:
  assumes "TrimSpace v = v"
  shows "dropCR (k @ CHR ''='' # v) = k @ CHR ''='' # v"
  using TrimSpace_no_final_CR [OF assms] by (auto simp: dropCR_def)

lemma TrimSpace_fmtBool: "TrimSpace (fmtBool b) = fmtBool b"
  by (cases b) (simp_all add: fmtBool_def TrimSpace_eval)

lemma fmtBool_true: "(fmtBool b = ''true'') = b"
  by (cases b) (simp_all add: fmtBool_def)

lemma fmtBool_no_LF: "CHR 0x0A \<notin> set (fmtBool b)" "length (fmtBool b) < 6"
  by (cases b; simp add: fmtBool_def)+

lemma left_key:
  "TrimLeftSpace (CHR ''S'' # r) = CHR ''S'' # r"
  "TrimLeftSpace (CHR ''E'' # r) = CHR ''E'' # r"
  "TrimLeftSpace (CHR ''P'' # r) = CHR ''P'' # r"
  "TrimLeftSpace (CHR ''A'' # r) = CHR ''A'' # r"
  "TrimLeftSpace (CHR ''G'' # r) = CHR ''G'' # r"
  by (simp_all add: TrimLeftSpace_def trimLeftSeqs_none whiteSpace_def)

lemma entries:
  assumes "TrimSpace v = v"
  shows "parseEntry (''StartDir='' @ v) = Some (''startdir'', v)"
    and "parseEntry (''Extension='' @ v) = Some (''extension'', v)"
    and "parseEntry (''PrefixToStrip='' @ v) = Some (''prefixtostrip'', v)"
    and "parseEntry (''ShowSuccessMessage='' @ v) = Some (''showsuccessmessage'', v)"
    and "parseEntry (''AutoSave='' @ v) = Some (''autosave'', v)"
    and "parseEntry (''GitAutoCommit='' @ v) = Some (''gitautocommit'', v)"
  using parseEntry_key_value [OF assms, of "''StartDir''"]
    parseEntry_key_value [OF assms, of "''Extension''"]
    parseEntry_key_value [OF assms, of "''PrefixToStrip''"]
    parseEntry_key_value [OF assms, of "''ShowSuccessMessage''"]
    parseEntry_key_value [OF assms, of "''AutoSave''"]
    parseEntry_key_value [OF assms, of "''GitAutoCommit''"]
  by (simp_all add: keys left_key)

lemma dropCRs:
  assumes "TrimSpace v = v"
  shows "dropCR (''StartDir='' @ v) = ''StartDir='' @ v"
    and "dropCR (''Extension='' @ v) = ''Extension='' @ v"
    and "dropCR (''PrefixToStrip='' @ v) = ''PrefixToStrip='' @ v"
    and "dropCR (''ShowSuccessMessage='' @ v) = ''ShowSuccessMessage='' @ v"
    and "dropCR (''AutoSave='' @ v) = ''AutoSave='' @ v"
    and "dropCR (''GitAutoCommit='' @ v) = ''GitAutoCommit='' @ v"
  using dropCR_key_value [OF assms, of "''StartDir''"]
    dropCR_key_value [OF assms, of "''Extension''"]
    dropCR_key_value [OF assms, of "''PrefixToStrip''"]
    dropCR_key_value [OF assms, of "''ShowSuccessMessage''"]
    dropCR_key_value [OF assms, of "''AutoSave''"]
    dropCR_key_value [OF assms, of "''GitAutoCommit''"]
  by simp_all

lemma dropCR_comment: "dropCR (CHR ''#'' # r) = CHR ''#'' # tl (dropCR (CHR ''#'' # r))"
  by (cases r rule: rev_cases) (auto simp: dropCR_def butlast_append)

lemma parseLine_comment: "parseLine cfg (dropCR (CHR ''#'' # r)) = cfg"
  by (subst dropCR_comment) (simp add: parseLine_entry parseEntry_comment)

lemma parseLine_blank: "parseLine cfg (dropCR []) = cfg"
  by (simp add: dropCR_def parseLine_entry parseEntry_blank)

lemma scan_configText:
  assumes "CHR 0x0A \<notin> set (StartDir cfg)" and "CHR 0x0A \<notin> set (Extension cfg)"
    and "CHR 0x0A \<notin> set (PrefixToStrip cfg)"
    and "length (''StartDir='' @ StartDir cfg) < MaxScanTokenSize"
    and "length (''Extension='' @ Extension cfg) < MaxScanTokenSize"
    and "length (''PrefixToStrip='' @ PrefixToStrip cfg) < MaxScanTokenSize"
  shows "scanLines (configText cfg) = map dropCR (configLines cfg)"
  unfolding configText_def
proof (rule scanLines_unlines)
  have b: "length (fmtBool b) < 6" "CHR 0x0A \<notin> set (fmtBool b)" for b
    by (simp_all add: fmtBool_no_LF)
  show "\<forall>l\<in>set (configLines cfg). CHR 0x0A \<notin> set l \<and> length l < MaxScanTokenSize"
    using assms b [of "ShowSuccess cfg"] b [of "AutoSave cfg"] b [of "GitAutoCommit cfg"]
    by (simp add: configLines_def MaxScanTokenSize_def)
qed

lemma key_lines:
  assumes "TrimSpace v = v"
  shows "parseLine cfg (dropCR (''StartDir='' @ v)) = cfg\<lparr>StartDir := v\<rparr>"
    and "parseLine cfg (dropCR (''Extension='' @ v)) = cfg\<lparr>Extension := v\<rparr>"
    and "parseLine cfg (dropCR (''PrefixToStrip='' @ v)) = cfg\<lparr>PrefixToStrip := Trim v (CHR 0x22)\<rparr>"
    and "parseLine cfg (dropCR (''ShowSuccessMessage='' @ v)) = cfg\<lparr>ShowSuccess := (v = ''true'')\<rparr>"
    and "parseLine cfg (dropCR (''AutoSave='' @ v)) = cfg\<lparr>AutoSave := (v = ''true'')\<rparr>"
    and "parseLine cfg (dropCR (''GitAutoCommit='' @ v)) = cfg\<lparr>GitAutoCommit := (v = ''true'')\<rparr>"
  unfolding dropCRs [OF assms] parseLine_entry entries [OF assms] by simp_all


lemma last_entry:
  "(case xs @ [e] of [] \<Rightarrow> None | a # as \<Rightarrow> Some (snd (last (a # as)))) = Some (snd e)"
  by (cases xs) simp_all

lemma lastValue_snoc:
  "lastValue key (ls @ [l]) =
     (case parseEntry l of
        None \<Rightarrow> lastValue key ls
      | Some e \<Rightarrow> if fst e = key then Some (snd e) else lastValue key ls)"
proof -
  have m: "List.map_filter parseEntry (ls @ [l]) =
      List.map_filter parseEntry ls @ (case parseEntry l of None \<Rightarrow> [] | Some e \<Rightarrow> [e])"
    by (simp add: map_filter_def split: option.splits)
  show ?thesis
  proof (cases "parseEntry l")
    case None
    then show ?thesis by (simp add: lastValue_def m)
  next
    case (Some e)
    show ?thesis
    proof (cases "fst e = key")
      case True
      then show ?thesis using Some by (simp add: lastValue_def m last_entry)
    next
      case False
      then show ?thesis using Some by (simp add: lastValue_def m)
    qed
  qed
qed

lemma field_fold:
  assumes "\<And>cfg l. f (parseLine cfg l) =
             (case parseEntry l of
                None \<Rightarrow> f cfg
              | Some e \<Rightarrow> if fst e = key then g (snd e) else f cfg)"
  shows "f (foldl parseLine c ls) = (case lastValue key ls of None \<Rightarrow> f c | Some v \<Rightarrow> g v)"
proof (induction ls rule: rev_induct)
  case Nil
  then show ?case by (simp add: lastValue_def map_filter_def)
next
  case (snoc l ls)
  then show ?case
    by (cases "parseEntry l") (simp_all add: assms lastValue_snoc)
qed

lemma parseConfig_fields:
  "StartDir (parseConfig data) =
     (case lastValue ''startdir'' (scanLines data) of None \<Rightarrow> ''.'' | Some v \<Rightarrow> v)"
  "Extension (parseConfig data) =
     (case lastValue ''extension'' (scanLines data) of None \<Rightarrow> ''.dg'' | Some v \<Rightarrow> v)"
  "PrefixToStrip (parseConfig data) =
     (case lastValue ''prefixtostrip'' (scanLines data) of
        None \<Rightarrow> ''void '' | Some v \<Rightarrow> Trim v (CHR 0x22))"
  "ShowSuccess (parseConfig data) =
     (case lastValue ''showsuccessmessage'' (scanLines data) of
        None \<Rightarrow> True | Some v \<Rightarrow> v = ''true'')"
  "AutoSave (parseConfig data) =
     (case lastValue ''autosave'' (scanLines data) of None \<Rightarrow> False | Some v \<Rightarrow> v = ''true'')"
  "GitAutoCommit (parseConfig data) =
     (case lastValue ''gitautocommit'' (scanLines data) of
        None \<Rightarrow> False | Some v \<Rightarrow> v = ''true'')"
proof -
  have d: "StartDir defaultConfig = ''.''" "Extension defaultConfig = ''.dg''"
    "PrefixToStrip defaultConfig = ''void ''" "ShowSuccess defaultConfig = True"
    "AutoSave defaultConfig = False" "GitAutoCommit defaultConfig = False"
    by (simp_all add: defaultConfig_def)
  have s1: "StartDir (parseLine cfg l) =
      (case parseEntry l of None \<Rightarrow> StartDir cfg
       | Some e \<Rightarrow> if fst e = ''startdir'' then snd e else StartDir cfg)" for cfg l
    by (simp add: parseLine_entry split: option.splits prod.splits)
  have s2: "Extension (parseLine cfg l) =
      (case parseEntry l of None \<Rightarrow> Extension cfg
       | Some e \<Rightarrow> if fst e = ''extension'' then snd e else Extension cfg)" for cfg l
    by (simp add: parseLine_entry split: option.splits prod.splits)
  have s3: "PrefixToStrip (parseLine cfg l) =
      (case parseEntry l of None \<Rightarrow> PrefixToStrip cfg
       | Some e \<Rightarrow> if fst e = ''prefixtostrip'' then Trim (snd e) (CHR 0x22)
                   else PrefixToStrip cfg)" for cfg l
    by (simp add: parseLine_entry split: option.splits prod.splits)
  have s4: "ShowSuccess (parseLine cfg l) =
      (case parseEntry l of None \<Rightarrow> ShowSuccess cfg
       | Some e \<Rightarrow> if fst e = ''showsuccessmessage'' then snd e = ''true''
                   else ShowSuccess cfg)" for cfg l
    by (simp add: parseLine_entry split: option.splits prod.splits)
  have s5: "AutoSave (parseLine cfg l) =
      (case parseEntry l of None \<Rightarrow> AutoSave cfg
       | Some e \<Rightarrow> if fst e = ''autosave'' then snd e = ''true'' else AutoSave cfg)" for cfg l
    by (simp add: parseLine_entry split: option.splits prod.splits)
  have s6: "GitAutoCommit (parseLine cfg l) =
      (case parseEntry l of None \<Rightarrow> GitAutoCommit cfg
       | Some e \<Rightarrow> if fst e = ''gitautocommit'' then snd e = ''true''
                   else GitAutoCommit cfg)" for cfg l
    by (simp add: parseLine_entry split: option.splits prod.splits)
  show "StartDir (parseConfig data) =
     (case lastValue ''startdir'' (scanLines data) of None \<Rightarrow> ''.'' | Some v \<Rightarrow> v)"
    using field_fold [of StartDir "''startdir''" "\<lambda>v. v", OF s1, of defaultConfig "scanLines data"]
    by (simp add: parseConfig_def d cong: option.case_cong)
  show "Extension (parseConfig data) =
     (case lastValue ''extension'' (scanLines data) of None \<Rightarrow> ''.dg'' | Some v \<Rightarrow> v)"
    using field_fold [of Extension "''extension''" "\<lambda>v. v", OF s2, of defaultConfig "scanLines data"]
    by (simp add: parseConfig_def d cong: option.case_cong)
  show "PrefixToStrip (parseConfig data) =
     (case lastValue ''prefixtostrip'' (scanLines data) of
        None \<Rightarrow> ''void '' | Some v \<Rightarrow> Trim v (CHR 0x22))"
    using field_fold [of PrefixToStrip "''prefixtostrip''" "\<lambda>v. Trim v (CHR 0x22)", OF s3,
        of defaultConfig "scanLines data"]
    by (simp add: parseConfig_def d cong: option.case_cong)
  show "ShowSuccess (parseConfig data) =
     (case lastValue ''showsuccessmessage'' (scanLines data) of
        None \<Rightarrow> True | Some v \<Rightarrow> v = ''true'')"
    using field_fold [of ShowSuccess "''showsuccessmessage''" "\<lambda>v. v = ''true''", OF s4,
        of defaultConfig "scanLines data"]
    by (simp add: parseConfig_def d cong: option.case_cong)
  show "AutoSave (parseConfig data) =
     (case lastValue ''autosave'' (scanLines data) of None \<Rightarrow> False | Some v \<Rightarrow> v = ''true'')"
    using field_fold [of AutoSave "''autosave''" "\<lambda>v. v = ''true''", OF s5,
        of defaultConfig "scanLines data"]
    by (simp add: parseConfig_def d cong: option.case_cong)
  show "GitAutoCommit (parseConfig data) =
     (case lastValue ''gitautocommit'' (scanLines data) of
        None \<Rightarrow> False | Some v \<Rightarrow> v = ''true'')"
    using field_fold [of GitAutoCommit "''gitautocommit''" "\<lambda>v. v = ''true''", OF s6,
        of defaultConfig "scanLines data"]
    by (simp add: parseConfig_def d cong: option.case_cong)
qed

lemma parseLine_ignored:
  "TrimSpace text = [] \<Longrightarrow> parseLine cfg text = cfg"
  "HasPrefix (TrimSpace text) ''#'' \<Longrightarrow> parseLine cfg text = cfg"
  "CHR ''='' \<notin> set (TrimSpace text) \<Longrightarrow> parseLine cfg text = cfg"
  by (simp_all add: parseLine_def SplitN2_alt Let_def)

text \<open>
  Claim C6. Loading an existing configuration file gives every field a value: the last
  line that stands for the field's key decides, and a field with no such line keeps its
  built-in default (start directory \<open>.\<close>, extension \<open>.dg\<close>, prefix \<open>void \<close>, success
  message on, auto-save off, git off). A line stands for a key and a value as
  \<open>parseEntry\<close> says: lines are trimmed; blank lines, lines starting with \<open>#\<close> and lines
  without \<open>=\<close> stand for nothing; the line is split at its first \<open>=\<close>; the key is
  compared in lower case; a key that is none of the six changes nothing. A boolean field
  is true only when its value is the token \<open>true\<close>. The lines are the ones the scanner
  delivers (\<open>scanLines\<close>): it stops at a line of 64 KiB or more. A file that exists and
  cannot be opened gives the defaults.
\<close>

theorem existing_config_parsed_with_defaults:
  "(configFile env = Contents data \<longrightarrow>
      loadConfig env = (parseConfig data, False, False, [])
    \<and> StartDir (parseConfig data) =
        (case lastValue ''startdir'' (scanLines data) of None \<Rightarrow> ''.'' | Some v \<Rightarrow> v)
    \<and> Extension (parseConfig data) =
        (case lastValue ''extension'' (scanLines data) of None \<Rightarrow> ''.dg'' | Some v \<Rightarrow> v)
    \<and> PrefixToStrip (parseConfig data) =
        (case lastValue ''prefixtostrip'' (scanLines data) of
           None \<Rightarrow> ''void '' | Some v \<Rightarrow> Trim v (CHR 0x22))
    \<and> ShowSuccess (parseConfig data) =
        (case lastValue ''showsuccessmessage'' (scanLines data) of
           None \<Rightarrow> True | Some v \<Rightarrow> v = ''true'')
    \<and> AutoSave (parseConfig data) =
        (case lastValue ''autosave'' (scanLines data) of
           None \<Rightarrow> False | Some v \<Rightarrow> v = ''true'')
    \<and> GitAutoCommit (parseConfig data) =
        (case lastValue ''gitautocommit'' (scanLines data) of
           None \<Rightarrow> False | Some v \<Rightarrow> v = ''true''))
   \<and> (configFile env = Unreadable \<longrightarrow> loadConfig env = (defaultConfig, False, False, []))
   \<and> (TrimSpace text = [] \<longrightarrow> parseLine cfg text = cfg)
   \<and> (HasPrefix (TrimSpace text) ''#'' \<longrightarrow> parseLine cfg text = cfg)
   \<and> (CHR ''='' \<notin> set (TrimSpace text) \<longrightarrow> parseLine cfg text = cfg)
   \<and> (parseEntry text = Some (key, val)
        \<and> key \<notin> {''startdir'', ''extension'', ''prefixtostrip'', ''showsuccessmessage'',
                   ''autosave'', ''gitautocommit''}
        \<longrightarrow> parseLine cfg text = cfg)"
proof (intro conjI impI)
  assume "configFile env = Contents data"
  then show "loadConfig env = (parseConfig data, False, False, [])"
    by (simp add: loadConfig_def)
next
  assume "configFile env = Unreadable"
  then show "loadConfig env = (defaultConfig, False, False, [])"
    by (simp add: loadConfig_def)
next
  assume "parseEntry text = Some (key, val)
        \<and> key \<notin> {''startdir'', ''extension'', ''prefixtostrip'', ''showsuccessmessage'',
                   ''autosave'', ''gitautocommit''}"
  then show "parseLine cfg text = cfg"
    by (simp add: parseLine_entry)
qed (simp_all add: parseConfig_fields parseLine_ignored)

lemma sampleLines_entries:
  "List.map_filter parseEntry (map dropCR sampleLines) =
     [(''extension'', ''.txt''), (''autosave'', ''TRUE''), (''bogus'', ''1''),
      (''showsuccessmessage'', ''yes''), (''gitautocommit'', ''true'')]"
proof -
  have "parseEntry ''# settings'' = None" by (rule parseEntry_comment)
  moreover have "parseEntry [] = None" by (rule parseEntry_blank)
  moreover have "parseEntry ''  EXTENSION = .txt  '' = Some (''extension'', ''.txt'')" by code_simp
  moreover have "parseEntry ''autosave=TRUE'' = Some (''autosave'', ''TRUE'')" by code_simp
  moreover have "parseEntry ''bogus=1'' = Some (''bogus'', ''1'')" by code_simp
  moreover have "parseEntry ''ShowSuccessMessage=yes'' = Some (''showsuccessmessage'', ''yes'')"
    by code_simp
  moreover have "parseEntry ''novalue'' = None" by code_simp
  moreover have "parseEntry ''GitAutoCommit=true'' = Some (''gitautocommit'', ''true'')"
    by code_simp
  ultimately show ?thesis
    by (simp add: sampleLines_def map_filter_def dropCR_def)
qed

lemma sampleLines_scan: "scanLines (unlines sampleLines) = map dropCR sampleLines"
  by (rule scanLines_unlines) (simp add: sampleLines_def MaxScanTokenSize_def)

lemma sampleLines_values:
  "lastValue ''startdir'' (scanLines (unlines sampleLines)) = None"
  "lastValue ''extension'' (scanLines (unlines sampleLines)) = Some ''.txt''"
  "lastValue ''prefixtostrip'' (scanLines (unlines sampleLines)) = None"
  "lastValue ''showsuccessmessage'' (scanLines (unlines sampleLines)) = Some ''yes''"
  "lastValue ''autosave'' (scanLines (unlines sampleLines)) = Some ''TRUE''"
  "lastValue ''gitautocommit'' (scanLines (unlines sampleLines)) = Some ''true''"
  by (simp_all add: lastValue_def sampleLines_scan sampleLines_entries)

theorem existing_config_parsed_with_defaults_witness:
  "loadConfig (firstRunEnv\<lparr>configFile := Contents (unlines sampleLines)\<rparr>) =
     (\<lparr>StartDir = ''.'', Extension = ''.txt'', PrefixToStrip = ''void '',
        ShowSuccess = False, AutoSave = False, GitAutoCommit = True\<rparr>, False, False, [])"
proof -
  let ?env = "firstRunEnv\<lparr>configFile := Contents (unlines sampleLines)\<rparr>"
  let ?c = "parseConfig (unlines sampleLines)"
  have c: "configFile ?env = Contents (unlines sampleLines)" by simp
  have "loadConfig ?env = (?c, False, False, [])
      \<and> StartDir ?c = ''.'' \<and> Extension ?c = ''.txt'' \<and> PrefixToStrip ?c = ''void ''
      \<and> ShowSuccess ?c = False \<and> AutoSave ?c = False \<and> GitAutoCommit ?c = True"
    using existing_config_parsed_with_defaults [of ?env "unlines sampleLines"] c
    by (simp add: sampleLines_values)
  then show ?thesis
    by (cases ?c) simp
qed

text \<open>
  Values the file carries through unchanged. Saving a configuration and loading the
  saved file gives back the same configuration when the three string fields are plain
  values (one line, no white space at either end), the prefix set neither starts nor
  ends with a double quote, and each of the three lines \<open>key=value\<close> is shorter than the
  scanner's limit of 64 KiB.
\<close>

lemma plain_values_round_trip:
  assumes "plainValue (StartDir cfg)" and "plainValue (Extension cfg)"
    and "plainValue (PrefixToStrip cfg)"
    and "Trim (PrefixToStrip cfg) (CHR 0x22) = PrefixToStrip cfg"
    and "length (''StartDir='' @ StartDir cfg) < MaxScanTokenSize"
    and "length (''Extension='' @ Extension cfg) < MaxScanTokenSize"
    and "length (''PrefixToStrip='' @ PrefixToStrip cfg) < MaxScanTokenSize"
    and "saveConfigToFile p cfg = [ConfigWrite p text]"
    and "configFile env = Contents text"
  shows "loadConfig env = (cfg, False, False, []) \<and> parseConfig (configText cfg) = cfg"
proof -
  have s: "scanLines (configText cfg) = map dropCR (configLines cfg)"
    using assms by (intro scan_configText) (simp_all add: plainValue_def)
  have t: "TrimSpace (StartDir cfg) = StartDir cfg" "TrimSpace (Extension cfg) = Extension cfg"
    "TrimSpace (PrefixToStrip cfg) = PrefixToStrip cfg"
    using assms by (simp_all add: plainValue_def)
  have "parseConfig (configText cfg) =
      defaultConfig\<lparr>StartDir := StartDir cfg, Extension := Extension cfg,
        PrefixToStrip := PrefixToStrip cfg, ShowSuccess := ShowSuccess cfg,
        AutoSave := AutoSave cfg, GitAutoCommit := GitAutoCommit cfg\<rparr>"
    unfolding parseConfig_def s configLines_def
    by (simp add: parseLine_comment parseLine_blank key_lines [OF t(1)] key_lines [OF t(2)]
        key_lines [OF t(3)] key_lines [OF TrimSpace_fmtBool]
        fmtBool_true assms(4) del: append.simps)
  then have r: "parseConfig (configText cfg) = cfg" by (simp add: defaultConfig_def)
  have "text = configText cfg"
    using assms(8) by (simp add: saveConfigToFile_def)
  with assms(9) r have "loadConfig env = (cfg, False, False, [])"
    by (simp add: loadConfig_def)
  with r show ?thesis by blast
qed

lemma default_prefix_line:
  "parseLine cfg (dropCR (''PrefixToStrip='' @ ''void |int |string ''))
     = cfg\<lparr>PrefixToStrip := ''void |int |string''\<rparr>"
proof -
  have e: "parseEntry ''PrefixToStrip=void |int |string '' = Some (''prefixtostrip'', ''void |int |string'')"
    by code_simp
  have "parseLine cfg ''PrefixToStrip=void |int |string '' = cfg\<lparr>PrefixToStrip := ''void |int |string''\<rparr>"
    unfolding parseLine_entry e by (simp add: Trim_def)
  then show ?thesis by (simp add: dropCR_def)
qed

text \<open>
  Claim C1: saving a configuration and loading the saved file should give back the
  identical configuration. The code does not do so for the configuration its own wizard
  builds when every prompt is answered with its default, \<open>wizardDefaults\<close>: the prefix
  set \<open>void |int |string \<close> ends with a space, \<open>saveConfigToFile\<close> writes it without
  quotes, and \<open>loadConfig\<close> trims the value and returns \<open>void |int |string\<close>. The
  loaded configuration differs from the saved one.
\<close>

theorem wizard_default_prefix_loses_space:
  "fst (runSetupWizard firstRunEnv (''C:/dgGit'', ''dggit.cfg'')) = wizardDefaults
   \<and> PrefixToStrip wizardDefaults = ''void |int |string ''
   \<and> PrefixToStrip (parseConfig (configText wizardDefaults)) = ''void |int |string''
   \<and> parseConfig (configText wizardDefaults) \<noteq> wizardDefaults
   \<and> fst (loadConfig (firstRunEnv\<lparr>configFile := Contents (configText wizardDefaults)\<rparr>))
       \<noteq> wizardDefaults"
proof -
  have f: "StartDir wizardDefaults = ''C:/repo''" "Extension wizardDefaults = ''.dg''"
    "PrefixToStrip wizardDefaults = ''void |int |string ''" "ShowSuccess wizardDefaults = True"
    "AutoSave wizardDefaults = False" "GitAutoCommit wizardDefaults = False"
    by (simp_all add: wizardDefaults_def)
  have w: "fst (runSetupWizard firstRunEnv (''C:/dgGit'', ''dggit.cfg'')) = wizardDefaults"
    by (simp add: runSetupWizard_def firstRunEnv_def Let_def wizardDefaults_def)
  have s: "scanLines (configText wizardDefaults) = map dropCR (configLines wizardDefaults)"
    by (rule scan_configText) (simp_all add: f MaxScanTokenSize_def)
  have t: "TrimSpace ''C:/repo'' = ''C:/repo''" "TrimSpace ''.dg'' = ''.dg''"
    by (simp_all add: TrimSpace_eval)
  have p: "parseConfig (configText wizardDefaults) =
      defaultConfig\<lparr>StartDir := ''C:/repo'', Extension := ''.dg'',
        PrefixToStrip := ''void |int |string'', ShowSuccess := True,
        AutoSave := False, GitAutoCommit := False\<rparr>"
    unfolding parseConfig_def s configLines_def f
    by (simp add: parseLine_comment parseLine_blank key_lines [OF t(1)] key_lines [OF t(2)]
        default_prefix_line key_lines [OF TrimSpace_fmtBool] fmtBool_true del: append.simps)
  have q: "PrefixToStrip (parseConfig (configText wizardDefaults)) = ''void |int |string''"
    by (simp add: p)
  have "parseConfig (configText wizardDefaults) \<noteq> wizardDefaults"
  proof
    assume "parseConfig (configText wizardDefaults) = wizardDefaults"
    with q f(3) have "''void |int |string'' = ''void |int |string ''" by simp
    then show False by simp
  qed
  then have "fst (loadConfig (firstRunEnv\<lparr>configFile := Contents (configText wizardDefaults)\<rparr>))
       \<noteq> wizardDefaults"
    by (simp add: loadConfig_def)
  with w f(3) q \<open>parseConfig (configText wizardDefaults) \<noteq> wizardDefaults\<close>
  show ?thesis by blast
qed


subsection \<open>The run\<close>

lemma Split_nonempty: "Split s sep \<noteq> []"
  by (cases s) (auto split: list.splits)

text \<open>The index \<open>lines[0]\<close> is always in range.\<close>

lemma firstLineOf_some: "\<exists>line. firstLineOf content = Some line"
  using Split_nonempty [of content "CHR 0x0A"]
  by (auto simp: firstLineOf_def split: list.splits)

lemma savePipeline_never_panics: "fst (savePipeline env cfg dir) \<noteq> IndexPanic"
  using firstLineOf_some [of "the (clipboardText env)"]
  by (auto simp: savePipeline_def Let_def split: option.splits prod.splits)

lemma TrimSpace_Nil: "TrimSpace [] = []"
  by (simp add: TrimSpace_eval)

lemma firstLineOf_Nil: "firstLineOf [] = Some []"
  by (simp add: firstLineOf_def ReplaceAll_def TrimSpace_Nil)

lemma runSetupWizard_events_quiet:
  "runSetupWizard env p = (cfg, cancelled, evs) \<Longrightarrow>
     \<forall>e\<in>set evs. \<not> pipelineEffect e \<and> \<not> isFolderPrompt e \<and> e \<noteq> ClipboardRead"
  by (auto simp: runSetupWizard_def saveConfigToFile_def Let_def wizardBrowseTitle_def
      folderPromptTitle_def split: option.splits prod.splits if_splits)

lemma loadConfig_events_quiet:
  "loadConfig env = (cfg, cancelled, isFirstRun, evs) \<Longrightarrow>
     \<forall>e\<in>set evs. \<not> pipelineEffect e \<and> \<not> isFolderPrompt e \<and> e \<noteq> ClipboardRead"
  by (auto simp: loadConfig_def Let_def split: fileState.splits prod.splits
      dest!: runSetupWizard_events_quiet)

lemma loadConfig_not_first:
  "loadConfig env = (cfg, cancelled, False, evs) \<Longrightarrow> evs = [] \<and> \<not> cancelled"
  by (auto simp: loadConfig_def Let_def split: fileState.splits prod.splits)

lemma askForFolder_events:
  "askForFolder env d = (dir, evs) \<Longrightarrow> \<forall>e\<in>set evs. \<not> pipelineEffect e \<and> e \<noteq> ClipboardRead"
  by (auto simp: askForFolder_def Let_def split: option.splits)

lemma resolveSaveDir_events:
  "resolveSaveDir env cfg = (dir, evs) \<Longrightarrow> \<forall>e\<in>set evs. \<not> pipelineEffect e \<and> e \<noteq> ClipboardRead"
  by (auto simp: resolveSaveDir_def split: if_splits dest!: askForFolder_events)

lemma savePipeline_no_prompt:
  "savePipeline env cfg dir = (x, evs) \<Longrightarrow> \<forall>e\<in>set evs. \<not> isFolderPrompt e"
  by (auto simp: savePipeline_def Let_def split: option.splits if_splits prod.splits)

lemma savePipeline_reads:
  "savePipeline env cfg dir = (x, evs) \<Longrightarrow> ClipboardRead \<in> set evs"
  by (auto simp: savePipeline_def Let_def split: option.splits if_splits prod.splits)

lemma savePipeline_no_clipboard:
  "clipboardText env = None \<or> clipboardText env = Some [] \<Longrightarrow>
     savePipeline env cfg dir = (NoClipboard, [ClipboardRead])"
  by (auto simp: savePipeline_def)

text \<open>The five ways through \<open>main\<close>.\<close>

lemma main_cases:
  obtains
    (cancelled) cfg ev1 f where "loadConfig env = (cfg, True, f, ev1)"
      "main env = (SetupWasCancelled, ev1)"
  | (registry) cfg ev1 f err where "loadConfig env = (cfg, False, f, ev1)"
      "registryError env = Some err"
      "main env = (RegistryError, ev1 @ [RegistryUpdate, Error (RegistryFailed err)])"
  | (first) cfg ev1 where "loadConfig env = (cfg, False, True, ev1)" "registryError env = None"
      "main env = (FirstRunDone, ev1 @ [RegistryUpdate])"
  | (nodir) cfg ev3 where "loadConfig env = (cfg, False, False, [])" "registryError env = None"
      "resolveSaveDir env cfg = ([], ev3)" "main env = (NoSaveDir, RegistryUpdate # ev3)"
  | (pipeline) cfg dir ev3 x ev4 where "loadConfig env = (cfg, False, False, [])"
      "registryError env = None" "resolveSaveDir env cfg = (dir, ev3)" "dir \<noteq> []"
      "savePipeline env cfg dir = (x, ev4)" "main env = (x, RegistryUpdate # ev3 @ ev4)"
proof -
  obtain cfg c f ev1 where l: "loadConfig env = (cfg, c, f, ev1)"
    by (metis prod_cases4)
  show thesis
  proof (cases c)
    case True
    with l show ?thesis by (intro cancelled [of cfg f ev1]) (simp_all add: main_def)
  next
    case nc: False
    show ?thesis
    proof (cases "registryError env")
      case (Some err)
      with l nc show ?thesis by (intro registry [of cfg f ev1 err]) (simp_all add: main_def)
    next
      case None
      show ?thesis
      proof (cases f)
        case True
        with l nc None show ?thesis by (intro first [of cfg ev1]) (simp_all add: main_def)
      next
        case nf: False
        with l nc have e: "ev1 = []" using loadConfig_not_first [of env cfg c ev1] by simp
        obtain dir ev3 where r: "resolveSaveDir env cfg = (dir, ev3)"
          by (cases "resolveSaveDir env cfg")
        obtain x ev4 where s: "savePipeline env cfg dir = (x, ev4)"
          by (cases "savePipeline env cfg dir")
        show ?thesis
        proof (cases "dir = []")
          case True
          with l nc None nf e r show ?thesis
            by (intro nodir [of cfg ev3]) (simp_all add: main_def)
        next
          case False
          with l nc None nf e r s show ?thesis
            by (intro pipeline [of cfg dir ev3 x ev4]) (simp_all add: main_def)
        qed
      qed
    qed
  qed
qed

lemma nothing_after_last:
  assumes "xs @ [c] = pre @ c # post" and "c \<notin> set xs"
  shows "post = []"
proof (cases post rule: rev_cases)
  case Nil
  then show ?thesis .
next
  case (snoc ys y)
  with assms(1) have "xs @ [c] = (pre @ c # ys) @ [y]" by simp
  then have "xs = pre @ c # ys" by (simp only: append1_eq_conv)
  with assms(2) show ?thesis by simp
qed

lemma laterRunEnv_load:
  "loadConfig laterRunEnv = (parseConfig (unlines laterRunLines), False, False, [])"
  by (simp add: loadConfig_def laterRunEnv_def)

text \<open>
  Claim C2, as amended. When loading the configuration reports no cancellation and the
  registry update succeeds, a run that is not a first run goes on to resolve the save
  directory and, unless that is empty, runs the save pipeline, which reads the clipboard.
  A first run ends after the registry update: it reads no clipboard, shows no folder
  prompt and does nothing of the save pipeline.
\<close>

theorem later_run_reaches_pipeline:
  assumes "loadConfig env = (cfg, False, isFirstRun, ev1)" and "registryError env = None"
  shows "(\<not> isFirstRun \<longrightarrow>
            (\<exists>saveDir ev3. resolveSaveDir env cfg = (saveDir, ev3)
               \<and> (saveDir = [] \<longrightarrow> main env = (NoSaveDir, RegistryUpdate # ev3))
               \<and> (saveDir \<noteq> [] \<longrightarrow>
                    (\<exists>x ev4. savePipeline env cfg saveDir = (x, ev4)
                       \<and> main env = (x, RegistryUpdate # ev3 @ ev4)
                       \<and> ClipboardRead \<in> set (snd (main env))))))
       \<and> (isFirstRun \<longrightarrow>
            main env = (FirstRunDone, ev1 @ [RegistryUpdate])
          \<and> (\<forall>e\<in>set (snd (main env)).
                e \<noteq> ClipboardRead \<and> \<not> isFolderPrompt e \<and> \<not> pipelineEffect e))"
proof (intro conjI impI)
  assume nf: "\<not> isFirstRun"
  then have e: "ev1 = []" using assms(1) loadConfig_not_first [of env cfg False ev1] by simp
  obtain dir ev3 where r: "resolveSaveDir env cfg = (dir, ev3)"
    by (cases "resolveSaveDir env cfg")
  obtain x ev4 where s: "savePipeline env cfg dir = (x, ev4)"
    by (cases "savePipeline env cfg dir")
  have m1: "dir = [] \<longrightarrow> main env = (NoSaveDir, RegistryUpdate # ev3)"
    using assms nf e r by (simp add: main_def)
  have m2: "dir \<noteq> [] \<longrightarrow> main env = (x, RegistryUpdate # ev3 @ ev4)"
    using assms nf e r s by (simp add: main_def)
  have m3: "dir \<noteq> [] \<longrightarrow> ClipboardRead \<in> set (snd (main env))"
    using m2 savePipeline_reads [OF s] by simp
  show "\<exists>saveDir ev3. resolveSaveDir env cfg = (saveDir, ev3)
               \<and> (saveDir = [] \<longrightarrow> main env = (NoSaveDir, RegistryUpdate # ev3))
               \<and> (saveDir \<noteq> [] \<longrightarrow>
                    (\<exists>x ev4. savePipeline env cfg saveDir = (x, ev4)
                       \<and> main env = (x, RegistryUpdate # ev3 @ ev4)
                       \<and> ClipboardRead \<in> set (snd (main env))))"
    using r s m1 m2 m3 by blast
next
  assume f: "isFirstRun"
  show m: "main env = (FirstRunDone, ev1 @ [RegistryUpdate])"
    using assms f by (simp add: main_def)
  show "\<forall>e\<in>set (snd (main env)).
                e \<noteq> ClipboardRead \<and> \<not> isFolderPrompt e \<and> \<not> pipelineEffect e"
    using loadConfig_events_quiet [OF assms(1)] by (auto simp: m)
qed

theorem later_run_reaches_pipeline_witness:
  "ClipboardRead \<in> set (snd (main laterRunEnv))"
proof -
  let ?cfg = "parseConfig (unlines laterRunLines)"
  have r: "registryError laterRunEnv = None"
    by (simp add: laterRunEnv_def firstRunEnv_def)
  have "fst (resolveSaveDir laterRunEnv ?cfg) \<noteq> []"
    by (simp add: resolveSaveDir_def askForFolder_def laterRunEnv_def firstRunEnv_def Let_def)
  then show ?thesis
    using later_run_reaches_pipeline [OF laterRunEnv_load r] by auto
qed

lemma firstRunEnv_load:
  "loadConfig firstRunEnv =
     (wizardDefaults, False, True,
      [Info Welcome, Info Step1Instructions, DirectoryDialog wizardBrowseTitle None,
       Info Step2Instructions, Entry ''Step 2: File Extension'' ''.dg'',
       Info Step3Instructions, Entry ''Step 3: Prefix Stripping'' ''void |int |string '',
       Question ''Step 4: Git Integration'' False, Question ''Step 5: Auto-Save Mode'' False,
       Question ''Step 6: Desktop Shortcut'' True,
       ConfigWrite (''C:/dgGit'', ''dggit.cfg'') (configText wizardDefaults),
       Info (SetupComplete (''C:/dgGit'', ''dggit.cfg''))])"
  by (simp add: loadConfig_def firstRunEnv_def runSetupWizard_def saveConfigToFile_def
      ConfigFileName_def Let_def wizardDefaults_def)

text \<open>
  Claim C2 fails as stated. On a first run on which the wizard completes and the
  registry update succeeds, \<open>main\<close> returns after the registry update (\<open>if isFirstRun\<close>):
  the clipboard is never read.
\<close>

theorem first_run_stops_after_setup:
  "fst (snd (loadConfig firstRunEnv)) = False
   \<and> registryError firstRunEnv = None
   \<and> fst (main firstRunEnv) = FirstRunDone
   \<and> ClipboardRead \<notin> set (snd (main firstRunEnv))"
proof -
  have r: "registryError firstRunEnv = None" by (simp add: firstRunEnv_def)
  show ?thesis
    by (simp add: main_def firstRunEnv_load r)
qed

lemma runSetupWizard_cancelled:
  assumes "wizardBrowse env = None \<or> \<not> snd (wizardExtension env) \<or> \<not> snd (wizardPrefix env)"
  shows "\<exists>evs. runSetupWizard env p = (zeroConfig, True, evs)
           \<and> \<not> list_ex isConfigWrite evs \<and> last evs = Warning SetupCancelled"
  using assms
  by (auto simp: runSetupWizard_def Let_def split: option.splits prod.splits)

lemma runSetupWizard_completed:
  assumes "wizardBrowse env = Some d" and "wizardExtension env = (ext, True)"
    and "wizardPrefix env = (pre, True)"
  shows "\<exists>evs. runSetupWizard env p =
           (\<lparr>StartDir = d, Extension = ext, PrefixToStrip = pre, ShowSuccess = True,
              AutoSave = fst (wizardAutoSave env), GitAutoCommit = fst (wizardUseGit env)\<rparr>,
            False, evs)
         \<and> ConfigWrite p (configText \<lparr>StartDir = d, Extension = ext, PrefixToStrip = pre,
              ShowSuccess = True, AutoSave = fst (wizardAutoSave env),
              GitAutoCommit = fst (wizardUseGit env)\<rparr>) \<in> set evs"
  using assms
  by (simp add: runSetupWizard_def Let_def saveConfigToFile_def)

text \<open>
  Claim C3, as amended. Cancelling the directory selection, the extension entry or the
  prefix entry ends the wizard with the cancelled flag, the zero configuration and no
  configuration file written; on a first run \<open>main\<close> then returns at once, with no
  registry update and no clipboard read. Once these three prompts are answered, the
  wizard completes whatever the three yes/no questions return, errors included: it
  takes the returned booleans as the answers and writes the configuration file.
\<close>

theorem wizard_cancel_at_first_three_prompts:
  "((wizardBrowse env = None \<or> \<not> snd (wizardExtension env) \<or> \<not> snd (wizardPrefix env)) \<longrightarrow>
      (\<exists>evs. runSetupWizard env p = (zeroConfig, True, evs)
          \<and> \<not> list_ex isConfigWrite evs \<and> last evs = Warning SetupCancelled)
    \<and> (configFile env = NotExist \<longrightarrow>
          fst (main env) = SetupWasCancelled
        \<and> \<not> list_ex isConfigWrite (snd (main env))
        \<and> RegistryUpdate \<notin> set (snd (main env))
        \<and> ClipboardRead \<notin> set (snd (main env))))
   \<and> ((wizardBrowse env = Some d \<and> wizardExtension env = (ext, True)
        \<and> wizardPrefix env = (pre, True)) \<longrightarrow>
      (\<exists>evs. runSetupWizard env p =
           (\<lparr>StartDir = d, Extension = ext, PrefixToStrip = pre, ShowSuccess = True,
              AutoSave = fst (wizardAutoSave env), GitAutoCommit = fst (wizardUseGit env)\<rparr>,
            False, evs)
         \<and> ConfigWrite p (configText \<lparr>StartDir = d, Extension = ext, PrefixToStrip = pre,
              ShowSuccess = True, AutoSave = fst (wizardAutoSave env),
              GitAutoCommit = fst (wizardUseGit env)\<rparr>) \<in> set evs))"
proof (intro conjI impI)
  assume c: "wizardBrowse env = None \<or> \<not> snd (wizardExtension env) \<or> \<not> snd (wizardPrefix env)"
  show "\<exists>evs. runSetupWizard env p = (zeroConfig, True, evs)
          \<and> \<not> list_ex isConfigWrite evs \<and> last evs = Warning SetupCancelled"
    using c by (rule runSetupWizard_cancelled)
  assume n: "configFile env = NotExist"
  obtain evs where w: "runSetupWizard env (exeDir env, ConfigFileName) = (zeroConfig, True, evs)"
    and nw: "\<not> list_ex isConfigWrite evs"
    using runSetupWizard_cancelled [OF c] by blast
  have m: "main env = (SetupWasCancelled, evs)"
    using n w by (simp add: main_def loadConfig_def)
  have q: "\<forall>e\<in>set evs. e \<noteq> ClipboardRead \<and> e \<noteq> RegistryUpdate"
    using w c by (auto simp: runSetupWizard_def Let_def split: option.splits prod.splits if_splits)
  show "fst (main env) = SetupWasCancelled" by (simp add: m)
  show "\<not> list_ex isConfigWrite (snd (main env))" using nw by (simp add: m)
  show "RegistryUpdate \<notin> set (snd (main env))" using q by (auto simp: m)
  show "ClipboardRead \<notin> set (snd (main env))" using q by (auto simp: m)
next
  assume "wizardBrowse env = Some d \<and> wizardExtension env = (ext, True)
        \<and> wizardPrefix env = (pre, True)"
  then show "\<exists>evs. runSetupWizard env p =
           (\<lparr>StartDir = d, Extension = ext, PrefixToStrip = pre, ShowSuccess = True,
              AutoSave = fst (wizardAutoSave env), GitAutoCommit = fst (wizardUseGit env)\<rparr>,
            False, evs)
         \<and> ConfigWrite p (configText \<lparr>StartDir = d, Extension = ext, PrefixToStrip = pre,
              ShowSuccess = True, AutoSave = fst (wizardAutoSave env),
              GitAutoCommit = fst (wizardUseGit env)\<rparr>) \<in> set evs"
    using runSetupWizard_completed by blast
qed

theorem wizard_cancel_at_first_three_prompts_witness:
  "fst (main (firstRunEnv\<lparr>wizardPrefix := ([], False)\<rparr>)) = SetupWasCancelled
   \<and> \<not> list_ex isConfigWrite (snd (main (firstRunEnv\<lparr>wizardPrefix := ([], False)\<rparr>)))
   \<and> list_ex isConfigWrite (snd (snd (runSetupWizard firstRunEnv (''d'', ''f''))))"
proof -
  have a: "\<not> snd (wizardPrefix (firstRunEnv\<lparr>wizardPrefix := ([], False)\<rparr>))" by simp
  have n: "configFile (firstRunEnv\<lparr>wizardPrefix := ([], False)\<rparr>) = NotExist"
    by (simp add: firstRunEnv_def)
  have b: "wizardBrowse firstRunEnv = Some ''C:/repo'' \<and> wizardExtension firstRunEnv = (''.dg'', True)
        \<and> wizardPrefix firstRunEnv = (''void |int |string '', True)"
    by (simp add: firstRunEnv_def)
  have 1: "fst (main (firstRunEnv\<lparr>wizardPrefix := ([], False)\<rparr>)) = SetupWasCancelled
   \<and> \<not> list_ex isConfigWrite (snd (main (firstRunEnv\<lparr>wizardPrefix := ([], False)\<rparr>)))"
    using wizard_cancel_at_first_three_prompts [of "firstRunEnv\<lparr>wizardPrefix := ([], False)\<rparr>"] a n
    by blast
  obtain c evs where r: "runSetupWizard firstRunEnv (''d'', ''f'') = (c, False, evs)"
    and w: "ConfigWrite (''d'', ''f'') (configText c) \<in> set evs"
    using wizard_cancel_at_first_three_prompts
      [of firstRunEnv "(''d'', ''f'')" "''C:/repo''" "''.dg''" "''void |int |string ''"] b
    by blast
  have "isConfigWrite (ConfigWrite (''d'', ''f'') (configText c))" by simp
  with w have "list_ex isConfigWrite evs" unfolding list_ex_iff by (rule rev_bexI)
  then have 2: "list_ex isConfigWrite (snd (snd (runSetupWizard firstRunEnv (''d'', ''f''))))"
    by (simp add: r)
  show ?thesis using 1 2 by blast
qed

text \<open>
  Claim C3 fails as stated. The error of a yes/no question is discarded
  (\<open>useGit, _ := dlgs.Question(...)\<close>): when the git question returns an error, the
  wizard is not cancelled, the configuration file is written and the run ends as a
  completed first run.
\<close>

theorem cancelled_question_still_writes_config:
  "snd (wizardUseGit questionCancelledEnv) = Some ''cancelled''
   \<and> fst (snd (runSetupWizard questionCancelledEnv (''C:/dgGit'', ''dggit.cfg''))) = False
   \<and> list_ex isConfigWrite
       (snd (snd (runSetupWizard questionCancelledEnv (''C:/dgGit'', ''dggit.cfg''))))
   \<and> fst (main questionCancelledEnv) = FirstRunDone
   \<and> list_ex isConfigWrite (snd (main questionCancelledEnv))"
  by (simp add: questionCancelledEnv_def firstRunEnv_def runSetupWizard_def saveConfigToFile_def
      Let_def main_def loadConfig_def)

text \<open>
  Claim C7. When the clipboard cannot be read or holds the empty string, the pipeline
  returns right after the read. In the whole run there is then no file write by the
  pipeline, no error dialog for a failed write, no commit, no clearing of the clipboard
  and no success dialog, and nothing at all happens after the clipboard read.
\<close>

theorem empty_clipboard_aborts_silently:
  assumes "clipboardText env = None \<or> clipboardText env = Some []"
  shows "savePipeline env cfg saveDir = (NoClipboard, [ClipboardRead])
       \<and> (\<forall>e\<in>set (snd (main env)). \<not> pipelineEffect e)
       \<and> (\<forall>pre post. snd (main env) = pre @ ClipboardRead # post \<longrightarrow> post = [])
       \<and> fst (main env) \<noteq> Done \<and> fst (main env) \<noteq> WriteFailed"
proof -
  note sp = savePipeline_no_clipboard [OF assms]
  have a: "\<forall>e\<in>set (snd (main env)). \<not> pipelineEffect e"
  proof (cases env rule: main_cases)
    case (pipeline cfg dir ev3 x ev4)
    then show ?thesis using sp [of cfg dir] resolveSaveDir_events [of env cfg dir ev3] by auto
  qed (auto dest!: loadConfig_events_quiet resolveSaveDir_events)
  have b: "post = []" if "snd (main env) = pre @ ClipboardRead # post" for pre post
  proof (cases env rule: main_cases)
    case (cancelled cfg ev1 f)
    then show ?thesis using that loadConfig_events_quiet [of env cfg True f ev1] by auto
  next
    case (registry cfg ev1 f err)
    then have "ClipboardRead \<in> set (ev1 @ [RegistryUpdate, Error (RegistryFailed err)])"
      using that by simp
    then show ?thesis using loadConfig_events_quiet [OF registry(1)] by auto
  next
    case (first cfg ev1)
    then have "ClipboardRead \<in> set (ev1 @ [RegistryUpdate])"
      using that by simp
    then show ?thesis using loadConfig_events_quiet [OF first(1)] by auto
  next
    case (nodir cfg ev3)
    then have "ClipboardRead \<in> set (RegistryUpdate # ev3)"
      using that by simp
    then show ?thesis using resolveSaveDir_events [OF nodir(3)] by auto
  next
    case (pipeline cfg dir ev3 x ev4)
    then have e: "RegistryUpdate # ev3 @ [ClipboardRead] = pre @ ClipboardRead # post"
      using that sp [of cfg dir] by simp
    have n: "ClipboardRead \<notin> set (RegistryUpdate # ev3)"
      using resolveSaveDir_events [OF pipeline(3)] by auto
    from e have "(RegistryUpdate # ev3) @ [ClipboardRead] = pre @ ClipboardRead # post" by simp
    then show ?thesis using n by (rule nothing_after_last)
  qed
  have c: "fst (main env) \<noteq> Done \<and> fst (main env) \<noteq> WriteFailed"
  proof (cases env rule: main_cases)
    case (pipeline cfg dir ev3 x ev4)
    then show ?thesis using sp [of cfg dir] by auto
  qed auto
  show ?thesis using sp a b c by blast
qed

theorem empty_clipboard_aborts_silently_witness:
  "savePipeline (laterRunEnv\<lparr>clipboardText := Some []\<rparr>) defaultConfig ''C:/repo''
     = (NoClipboard, [ClipboardRead])
   \<and> fst (main (laterRunEnv\<lparr>clipboardText := Some []\<rparr>)) \<noteq> Done"
proof -
  have h: "clipboardText (laterRunEnv\<lparr>clipboardText := Some []\<rparr>) = None
         \<or> clipboardText (laterRunEnv\<lparr>clipboardText := Some []\<rparr>) = Some []"
    by simp
  show ?thesis
    using empty_clipboard_aborts_silently [OF h, of defaultConfig "''C:/repo''"] by blast
qed

lemma laterRunEnv_parsed:
  "parseConfig (unlines laterRunLines) = defaultConfig\<lparr>StartDir := ''C:/repo'', AutoSave := True\<rparr>"
proof -
  have s: "scanLines (unlines laterRunLines) = map dropCR laterRunLines"
    by (rule scanLines_unlines) (simp add: laterRunLines_def MaxScanTokenSize_def)
  have t: "TrimSpace ''C:/repo'' = ''C:/repo''" "TrimSpace ''true'' = ''true''"
    by (simp_all add: TrimSpace_eval)
  show ?thesis
    unfolding parseConfig_def s unfolding laterRunLines_def
    by (simp add: key_lines [OF t(1)] key_lines [OF t(2)] del: append.simps)
qed

text \<open>
  Claim C8, as amended. Take a run with no command-line argument in which auto-save is
  enabled in the configuration and the configured default directory exists (\<open>os.Stat\<close>
  succeeds). The whole run shows no folder prompt. When the run is not a first run,
  setup was not cancelled and the registry update succeeds, the save directory is the
  configured default: the run goes on into the save pipeline with exactly that
  directory, or returns silently when that directory is the empty string. A run whose
  setup was cancelled, whose registry update fails, or that is a first run ends before
  any save directory is resolved.
\<close>

theorem auto_save_skips_folder_prompt:
  assumes "loadConfig env = (cfg, cancelled, isFirstRun, ev1)"
    and "length (osArgs env) \<le> 1" and "AutoSave cfg" and "statOk env (StartDir cfg)"
  shows "resolveSaveDir env cfg = (StartDir cfg, [])
       \<and> (\<forall>e\<in>set (snd (main env)). \<not> isFolderPrompt e)
       \<and> main env =
           (if cancelled then (SetupWasCancelled, ev1)
            else case registryError env of
              Some err \<Rightarrow> (RegistryError, ev1 @ [RegistryUpdate, Error (RegistryFailed err)])
            | None \<Rightarrow>
                if isFirstRun then (FirstRunDone, ev1 @ [RegistryUpdate])
                else if StartDir cfg = [] then (NoSaveDir, [RegistryUpdate])
                else (fst (savePipeline env cfg (StartDir cfg)),
                      RegistryUpdate # snd (savePipeline env cfg (StartDir cfg))))"
proof -
  have r: "resolveSaveDir env cfg = (StartDir cfg, [])"
    using assms by (simp add: resolveSaveDir_def)
  have "\<forall>e\<in>set (snd (main env)). \<not> isFolderPrompt e"
  proof (cases env rule: main_cases)
    case (pipeline cfg' dir ev3 x ev4)
    then show ?thesis using r assms(1) savePipeline_no_prompt [OF pipeline(5)] by auto
  next
    case (nodir cfg' ev3)
    then show ?thesis using r assms(1) by auto
  qed (auto dest!: loadConfig_events_quiet)
  moreover have "main env =
           (if cancelled then (SetupWasCancelled, ev1)
            else case registryError env of
              Some err \<Rightarrow> (RegistryError, ev1 @ [RegistryUpdate, Error (RegistryFailed err)])
            | None \<Rightarrow>
                if isFirstRun then (FirstRunDone, ev1 @ [RegistryUpdate])
                else if StartDir cfg = [] then (NoSaveDir, [RegistryUpdate])
                else (fst (savePipeline env cfg (StartDir cfg)),
                      RegistryUpdate # snd (savePipeline env cfg (StartDir cfg))))"
  proof (cases "isFirstRun \<or> cancelled")
    case True
    then show ?thesis
      using assms(1) by (auto simp: main_def split: option.splits)
  next
    case False
    then have "ev1 = []"
      using assms(1) loadConfig_not_first [of env cfg cancelled ev1] by simp
    with False show ?thesis
      using assms(1) r by (auto simp: main_def split: option.splits prod.splits)
  qed
  ultimately show ?thesis using r by blast
qed

theorem auto_save_skips_folder_prompt_witness:
  "resolveSaveDir laterRunEnv (parseConfig (unlines laterRunLines)) = (''C:/repo'', [])
   \<and> \<not> list_ex isFolderPrompt (snd (main laterRunEnv))
   \<and> main laterRunEnv =
       (Done, [RegistryUpdate, ClipboardRead,
          SaveWrite (''C:/repo'', ''int main(){}.dg'') (''int main(){}'' @ [CHR 0x0A] @ ''body''),
          ClipboardWrite [],
          Info (Saved (''C:/repo'', ''int main(){}.dg'') [])])"
proof -
  let ?cfg = "parseConfig (unlines laterRunLines)"
  have f: "StartDir ?cfg = ''C:/repo''" "AutoSave ?cfg = True" "Extension ?cfg = ''.dg''"
    "PrefixToStrip ?cfg = ''void ''" "GitAutoCommit ?cfg = False" "ShowSuccess ?cfg = True"
    by (simp_all add: laterRunEnv_parsed defaultConfig_def)
  have a: "length (osArgs laterRunEnv) \<le> 1"
    by (simp add: laterRunEnv_def firstRunEnv_def)
  have b: "AutoSave ?cfg" by (simp add: f)
  have c: "statOk laterRunEnv (StartDir ?cfg)"
    by (simp add: f laterRunEnv_def firstRunEnv_def)
  have g: "registryError laterRunEnv = None"
    by (simp add: laterRunEnv_def firstRunEnv_def)
  have t: "TrimSpace ''int main(){}'' = ''int main(){}''"
    by (simp add: TrimSpace_eval)
  have l: "firstLineOf (''int main(){}'' @ [CHR 0x0A] @ ''body'') = Some ''int main(){}''"
    by (simp add: firstLineOf_def ReplaceAll_def t)
  have n: "safeFilename ?cfg ''int main(){}'' = ''int main(){}.dg''"
    by (simp add: safeFilename_def filenameRaw_def f HasPrefix_def t sanitizeFilename_map
        illegalChars_def)
  have p: "savePipeline laterRunEnv ?cfg ''C:/repo'' =
       (Done, [ClipboardRead,
          SaveWrite (''C:/repo'', ''int main(){}.dg'') (''int main(){}'' @ [CHR 0x0A] @ ''body''),
          ClipboardWrite [],
          Info (Saved (''C:/repo'', ''int main(){}.dg'') [])])"
    using l n by (simp add: savePipeline_def laterRunEnv_def firstRunEnv_def f Let_def)
  show ?thesis
    using auto_save_skips_folder_prompt [OF laterRunEnv_load a b c]
    by (simp add: f g p list_ex_iff)
qed

text \<open>
  Claim C8 fails as stated. On a first run on which the wizard's auto-save question is
  answered yes, the run has no command-line argument, auto-save is enabled in the
  configuration and the default directory exists; yet \<open>main\<close> returns after the
  registry update (\<open>if isFirstRun\<close>): no save directory is resolved, the clipboard is not
  read and nothing is saved into the default directory.
\<close>

theorem first_run_with_auto_save_resolves_nothing:
  "length (osArgs (firstRunEnv\<lparr>wizardAutoSave := (True, None)\<rparr>)) = 1
   \<and> AutoSave (fst (loadConfig (firstRunEnv\<lparr>wizardAutoSave := (True, None)\<rparr>)))
   \<and> StartDir (fst (loadConfig (firstRunEnv\<lparr>wizardAutoSave := (True, None)\<rparr>))) = ''C:/repo''
   \<and> statOk (firstRunEnv\<lparr>wizardAutoSave := (True, None)\<rparr>) ''C:/repo''
   \<and> fst (main (firstRunEnv\<lparr>wizardAutoSave := (True, None)\<rparr>)) = FirstRunDone
   \<and> ClipboardRead \<notin> set (snd (main (firstRunEnv\<lparr>wizardAutoSave := (True, None)\<rparr>)))
   \<and> \<not> list_ex pipelineEffect (snd (main (firstRunEnv\<lparr>wizardAutoSave := (True, None)\<rparr>)))"
  by (simp add: firstRunEnv_def runSetupWizard_def saveConfigToFile_def
      Let_def main_def loadConfig_def)

text \<open>
  Claim C10, as amended. The empty-name check comes before the prefix is removed. When
  the trimmed first line is not empty and removing the first matching candidate leaves
  nothing after trimming (in particular when the first candidate that matches the line
  is the whole line), the pipeline does not return for an empty first line: the file
  name is exactly the configured extension, and the write of the clipboard text to that
  name in the save directory is the next thing the pipeline does.
\<close>

theorem emptied_name_is_the_extension:
  assumes "clipboardText env = Some content" and "firstLineOf content = Some line"
    and "line \<noteq> []"
    and "TrimSpace (filenameRaw cfg line) = []
         \<or> find (\<lambda>p. p \<noteq> [] \<and> prefix p line) (Split (PrefixToStrip cfg) (CHR ''|'')) = Some line"
  shows "safeFilename cfg line = Extension cfg
       \<and> fst (savePipeline env cfg saveDir) \<noteq> EmptyFirstLine
       \<and> take 2 (snd (savePipeline env cfg saveDir))
           = [ClipboardRead, SaveWrite (saveDir, Extension cfg) content]"
proof -
  have t: "TrimSpace (filenameRaw cfg line) = []"
  proof -
    { assume f: "find (\<lambda>p. p \<noteq> [] \<and> prefix p line) (Split (PrefixToStrip cfg) (CHR ''|'')) = Some line"
      have "PrefixToStrip cfg \<noteq> []"
        using f by (cases "PrefixToStrip cfg") auto
      then have "filenameRaw cfg line = []"
        using f by (simp add: filenameRaw_def stripLoop_find)
      then have ?thesis by (simp add: TrimSpace_Nil) }
    with assms(4) show ?thesis by blast
  qed
  have s: "safeFilename cfg line = Extension cfg"
    by (simp add: safeFilename_def t sanitizeFilename_map)
  have c: "content \<noteq> []"
    using assms(2,3) firstLineOf_Nil by auto
  show ?thesis
    using assms(1,2,3) c s
    by (auto simp: savePipeline_def Let_def split: option.splits prod.splits)
qed

theorem emptied_name_is_the_extension_witness:
  "safeFilename (defaultConfig\<lparr>PrefixToStrip := ''void''\<rparr>) ''void'' = ''.dg''
   \<and> take 2 (snd (savePipeline (laterRunEnv\<lparr>clipboardText := Some ''void''\<rparr>)
         (defaultConfig\<lparr>PrefixToStrip := ''void''\<rparr>) ''C:/repo''))
       = [ClipboardRead, SaveWrite (''C:/repo'', ''.dg'') ''void'']"
proof -
  let ?env = "laterRunEnv\<lparr>clipboardText := Some ''void''\<rparr>"
  let ?cfg = "defaultConfig\<lparr>PrefixToStrip := ''void''\<rparr>"
  have t1: "TrimSpace ''void'' = ''void''" by (simp add: TrimSpace_eval)
  have a: "clipboardText ?env = Some ''void''" by simp
  have b: "firstLineOf ''void'' = Some ''void''"
    by (simp add: firstLineOf_def ReplaceAll_def t1)
  have c: "''void'' \<noteq> []" by simp
  have d: "TrimSpace (filenameRaw ?cfg ''void'') = []
         \<or> find (\<lambda>p. p \<noteq> [] \<and> prefix p ''void'') (Split (PrefixToStrip ?cfg) (CHR ''|'')) = Some ''void''"
    by simp
  have e: "Extension ?cfg = ''.dg''" by (simp add: defaultConfig_def)
  show ?thesis
    using emptied_name_is_the_extension [OF a b c d, of "''C:/repo''"] unfolding e by blast
qed

text \<open>
  Claim C10 fails as stated. With the prefix set \<open>v|void\<close> the first line \<open>void\<close> is
  one of the configured candidates, but the candidate \<open>v\<close> comes first and matches:
  the file is named \<open>oid.dg\<close>, not \<open>.dg\<close>.
\<close>

theorem shorter_candidate_wins:
  "''void'' \<in> set (Split (PrefixToStrip nestedPrefixConfig) (CHR ''|''))
   \<and> firstLineOf ''void'' = Some ''void''
   \<and> safeFilename nestedPrefixConfig ''void'' = ''oid.dg''
   \<and> Extension nestedPrefixConfig = ''.dg''
   \<and> take 2 (snd (savePipeline (laterRunEnv\<lparr>clipboardText := Some ''void''\<rparr>)
         nestedPrefixConfig ''C:/repo''))
       = [ClipboardRead, SaveWrite (''C:/repo'', ''oid.dg'') ''void'']"
proof -
  have t1: "TrimSpace ''void'' = ''void''" by (simp add: TrimSpace_eval)
  have t2: "TrimSpace ''oid'' = ''oid''" by (simp add: TrimSpace_eval)
  have f: "firstLineOf ''void'' = Some ''void''"
    by (simp add: firstLineOf_def ReplaceAll_def t1)
  have s: "safeFilename nestedPrefixConfig ''void'' = ''oid.dg''"
    by (simp add: safeFilename_def filenameRaw_def nestedPrefixConfig_def defaultConfig_def
        HasPrefix_def TrimPrefix_def t2 sanitizeFilename_map illegalChars_def)
  have e: "Extension nestedPrefixConfig = ''.dg''" "GitAutoCommit nestedPrefixConfig = False"
    "PrefixToStrip nestedPrefixConfig = ''v|void''"
    by (simp_all add: nestedPrefixConfig_def defaultConfig_def)
  show ?thesis
    by (simp add: f s e savePipeline_def laterRunEnv_def firstRunEnv_def Let_def)
qed

end
